theory Spec2Isabelle
  imports Main
begin

section \<open>Data model of openssl.c\<close>

text \<open>
  The shim works on decoded OpenSSL objects through pointers. A pointer that the code
  tests against NULL is an \<open>option\<close> (\<open>None\<close> is NULL). HOL's \<open>char\<close> is an 8-bit
  byte and stands for both C's \<open>char\<close> and \<open>uint8_t\<close>. A buffer is the list of the
  bytes it holds; C strings carry their terminating NUL explicitly. All C \<open>int\<close> and
  \<open>int32_t\<close> values are \<open>int\<close>: the only arithmetic the modelled functions do on
  them is the negation of a non-negative length and \<open>1 + n\<close> on a small text length,
  neither of which can leave the 32-bit range.
\<close>

type_synonym uint8_t = char

definition NUL :: char where
  "NUL = CHR 0x00"

definition INT_MAX :: int where
  "INT_MAX = 2147483647"

text \<open>\<open>struct asn1_string_st\<close>: \<open>int length; unsigned char *data\<close>.\<close>

record ASN1_STRING =
  asn1_length :: int
  asn1_data :: "uint8_t list option"

text \<open>
  An \<open>ASN1_OBJECT\<close> (an object identifier) is represented by what the two OpenSSL
  lookups used here return for it: \<open>OBJ_obj2nid\<close> (the numeric id of a known OID,
  \<open>NID_undef\<close> otherwise) and the dotted-decimal text that \<open>OBJ_obj2txt\<close> renders when
  its \<open>no_name\<close> argument is 1.
\<close>

record ASN1_OBJECT =
  obj_nid :: int
  obj_txt :: string

text \<open>\<open>X509_NAME_ENTRY\<close>: the attribute's OID and its value, both behind pointers.\<close>

record X509_NAME_ENTRY =
  entry_object :: "ASN1_OBJECT option"
  entry_data :: "ASN1_STRING option"

text \<open>
  \<open>X509_NAME\<close>: the entries in encoded order (index 0 first) and the cached DER
  encoding that \<open>X509_NAME_get0_der\<close> hands out (\<open>None\<close> when that call fails).
\<close>

record X509_NAME =
  name_entries :: "X509_NAME_ENTRY list"
  name_der :: "uint8_t list option"

section \<open>Buffer accessors\<close>

text \<open>
  Modelled from the spec: \<open>Int32ToSizeT\<close> is declared in pal_utilities.h, which is not
  under src. It is the cast of a non-negative \<open>int32_t\<close> capacity or length to \<open>size_t\<close>.
\<close>

definition Int32ToSizeT :: "int \<Rightarrow> nat" where
  "Int32ToSizeT v = nat v"

text \<open>
  Modelled from the spec: \<open>memcpy_s\<close> is declared in pal_safecrt.h, which is not under
  src. The spec's "copying" is: the first \<open>count\<close> bytes of \<open>src\<close> overwrite the start
  of \<open>dst\<close>. The header's release-mode checks are kept: nothing is done for
  \<open>count = 0\<close>, and a NULL source or a destination smaller than \<open>count\<close> zero-fills
  the destination instead of copying.
\<close>

definition memcpy_s :: "uint8_t list \<Rightarrow> nat \<Rightarrow> uint8_t list option \<Rightarrow> nat \<Rightarrow> uint8_t list" where
  "memcpy_s dst sizeInBytes src count =
     (if count = 0 then dst
      else case src of
        None \<Rightarrow> replicate sizeInBytes NUL @ drop sizeInBytes dst
      | Some s \<Rightarrow>
          if sizeInBytes < count then replicate sizeInBytes NUL @ drop sizeInBytes dst
          else take count s @ drop count dst)"

text \<open>
  \<open>CryptoNative_GetAsn1StringBytes(asn1, pBuf, cBuf)\<close>: the result is the return code
  together with the buffer behind \<open>pBuf\<close> after the call.
\<close>

definition CryptoNative_GetAsn1StringBytes ::
  "ASN1_STRING option \<Rightarrow> uint8_t list option \<Rightarrow> int \<Rightarrow> int \<times> uint8_t list option" where
  "CryptoNative_GetAsn1StringBytes asn1 pBuf cBuf =
     (case asn1 of
        None \<Rightarrow> (0, pBuf)
      | Some a \<Rightarrow>
          if cBuf < 0 then (0, pBuf)
          else
            let len = asn1_length a in
            if len < 0 then (0, pBuf)
            else
              (case pBuf of
                 None \<Rightarrow> (- len, pBuf)
               | Some buf \<Rightarrow>
                   if cBuf < len then (- len, pBuf)
                   else (1, Some (memcpy_s buf (Int32ToSizeT cBuf) (asn1_data a) (Int32ToSizeT len)))))"



section \<open>OpenSSL objects and constants used by the name functions\<close>

text \<open>
  The numeric constants below are macros of OpenSSL's headers (obj_mac.h, x509v3.h,
  asn1.h), which are not under src; they carry the values those headers give them.
  The functions only compare them with each other.
\<close>

definition NID_undef :: int where "NID_undef = 0"
definition NID_commonName :: int where "NID_commonName = 13"
definition NID_organizationName :: int where "NID_organizationName = 17"
definition NID_organizationalUnitName :: int where "NID_organizationalUnitName = 18"
definition NID_pkcs9_emailAddress :: int where "NID_pkcs9_emailAddress = 48"
definition NID_subject_alt_name :: int where "NID_subject_alt_name = 85"
definition NID_issuer_alt_name :: int where "NID_issuer_alt_name = 86"

definition GEN_OTHERNAME :: int where "GEN_OTHERNAME = 0"
definition GEN_EMAIL :: int where "GEN_EMAIL = 1"
definition GEN_DNS :: int where "GEN_DNS = 2"
definition GEN_URI :: int where "GEN_URI = 6"
definition GEN_IPADD :: int where "GEN_IPADD = 7"

definition ASN1_STRFLGS_UTF8_CONVERT :: int where "ASN1_STRFLGS_UTF8_CONVERT = 0x10"
definition X509_CHECK_FLAG_NO_PARTIAL_WILDCARDS :: int where "X509_CHECK_FLAG_NO_PARTIAL_WILDCARDS = 0x4"

lemmas nid_defs = NID_undef_def NID_commonName_def NID_organizationName_def
  NID_organizationalUnitName_def NID_pkcs9_emailAddress_def NID_subject_alt_name_def
  NID_issuer_alt_name_def

lemmas gen_defs = GEN_OTHERNAME_def GEN_EMAIL_def GEN_DNS_def GEN_URI_def GEN_IPADD_def

text \<open>The \<open>#define\<close>s of openssl.c (lines 32 to 42).\<close>

definition NAME_TYPE_SIMPLE :: int where "NAME_TYPE_SIMPLE = 0"
definition NAME_TYPE_EMAIL :: int where "NAME_TYPE_EMAIL = 1"
definition NAME_TYPE_UPN :: int where "NAME_TYPE_UPN = 2"
definition NAME_TYPE_DNS :: int where "NAME_TYPE_DNS = 3"
definition NAME_TYPE_DNSALT :: int where "NAME_TYPE_DNSALT = 4"
definition NAME_TYPE_URL :: int where "NAME_TYPE_URL = 5"

lemmas name_type_defs = NAME_TYPE_SIMPLE_def NAME_TYPE_EMAIL_def NAME_TYPE_UPN_def
  NAME_TYPE_DNS_def NAME_TYPE_DNSALT_def NAME_TYPE_URL_def

text \<open>
  A pointer as the code gets it when it reads a pointer member of a union: NULL, the
  address of an object of the member's type, or a bit pattern that is neither
  (\<open>Wild\<close>), because the union holds a value of another member. Nothing can be read
  through a wild pointer.
\<close>

datatype 'a pointer = Null | Valid 'a | Wild

definition pointer_of :: "'a option \<Rightarrow> 'a pointer" where
  "pointer_of p = (case p of None \<Rightarrow> Null | Some v \<Rightarrow> Valid v)"

text \<open>
  \<open>ASN1_TYPE\<close> is a tagged union: \<open>int type\<close> and the union \<open>value\<close>. \<open>any_string\<close>
  stands for every type that OpenSSL keeps as an \<open>ASN1_STRING\<close> (the string, integer
  and time types, SEQUENCE and SET), \<open>any_boolean\<close> for \<open>V_ASN1_BOOLEAN\<close> with the
  \<open>int\<close> member \<open>value.boolean\<close> (0 for FALSE, 0xff for TRUE), \<open>any_object\<close> for
  \<open>V_ASN1_OBJECT\<close> with \<open>value.object\<close>, and \<open>any_null\<close> for \<open>V_ASN1_NULL\<close>, whose
  pointer is NULL.
\<close>

datatype ASN1_TYPE =
    any_string "ASN1_STRING option"
  | any_boolean int
  | any_object "ASN1_OBJECT option"
  | any_null

text \<open>
  Reading the member \<open>value.asn1_string\<close> whatever the type is, as line 643 does. In
  a zeroed union a FALSE boolean reads as NULL and a TRUE boolean as the address
  0xff; an object's address is not the address of a string.
\<close>

fun value_asn1_string :: "ASN1_TYPE \<Rightarrow> ASN1_STRING pointer" where
  "value_asn1_string (any_string s) = pointer_of s"
| "value_asn1_string (any_boolean b) = (if b = 0 then Null else Wild)"
| "value_asn1_string (any_object obj) = (case obj of None \<Rightarrow> Null | Some _ \<Rightarrow> Wild)"
| "value_asn1_string any_null = Null"

text \<open>\<open>OTHERNAME\<close>: \<open>ASN1_OBJECT *type_id; ASN1_TYPE *value\<close>.\<close>

record OTHERNAME =
  type_id :: "ASN1_OBJECT option"
  othername_value :: "ASN1_TYPE option"

text \<open>
  \<open>GENERAL_NAME\<close> is a tagged union: \<open>int type\<close> and the union \<open>d\<close>. Each constructor
  is one member of \<open>d\<close> with the pointer it holds; \<open>otherKind\<close> carries the tag of the
  kinds whose members the shim never reads (X.400, directory name, EDI party,
  registered id).
\<close>

datatype GENERAL_NAME =
    otherName "OTHERNAME option"
  | rfc822Name "ASN1_STRING option"
  | dNSName "ASN1_STRING option"
  | uniformResourceIdentifier "ASN1_STRING option"
  | iPAddress "ASN1_STRING option"
  | otherKind int

fun general_name_type :: "GENERAL_NAME \<Rightarrow> int" where
  "general_name_type (otherName _) = GEN_OTHERNAME"
| "general_name_type (rfc822Name _) = GEN_EMAIL"
| "general_name_type (dNSName _) = GEN_DNS"
| "general_name_type (uniformResourceIdentifier _) = GEN_URI"
| "general_name_type (iPAddress _) = GEN_IPADD"
| "general_name_type (otherKind t) = t"

text \<open>
  Reading a member of the union \<open>d\<close>. The shim reads a member only after it has
  compared the tag, so the last equation of each function is never reached from it.
\<close>

fun d_otherName :: "GENERAL_NAME \<Rightarrow> OTHERNAME option" where
  "d_otherName (otherName v) = v"
| "d_otherName _ = None"

fun d_rfc822Name :: "GENERAL_NAME \<Rightarrow> ASN1_STRING option" where
  "d_rfc822Name (rfc822Name s) = s"
| "d_rfc822Name _ = None"

fun d_dNSName :: "GENERAL_NAME \<Rightarrow> ASN1_STRING option" where
  "d_dNSName (dNSName s) = s"
| "d_dNSName _ = None"

fun d_uniformResourceIdentifier :: "GENERAL_NAME \<Rightarrow> ASN1_STRING option" where
  "d_uniformResourceIdentifier (uniformResourceIdentifier s) = s"
| "d_uniformResourceIdentifier _ = None"

fun d_iPAddress :: "GENERAL_NAME \<Rightarrow> ASN1_STRING option" where
  "d_iPAddress (iPAddress s) = s"
| "d_iPAddress _ = None"

text \<open>
  \<open>GENERAL_NAMES\<close> is a stack of \<open>GENERAL_NAME\<close>; \<open>sk_GENERAL_NAME_value\<close> returns NULL
  for an index out of range.
\<close>

type_synonym GENERAL_NAMES = "GENERAL_NAME list"

definition sk_GENERAL_NAME_num :: "GENERAL_NAMES \<Rightarrow> nat" where
  "sk_GENERAL_NAME_num sk = length sk"

definition sk_GENERAL_NAME_value :: "GENERAL_NAMES \<Rightarrow> nat \<Rightarrow> GENERAL_NAME option" where
  "sk_GENERAL_NAME_value sk i = (if i < length sk then Some (sk ! i) else None)"

text \<open>
  \<open>X509_ALGOR\<close> has the members \<open>algorithm\<close> and \<open>parameter\<close>; of \<open>X509_PUBKEY\<close>, which
  is opaque, the shim reaches the algorithm only, through \<open>X509_PUBKEY_get0_param\<close>.
\<close>

record X509_ALGOR =
  algorithm :: "ASN1_OBJECT option"
  parameter :: "ASN1_TYPE option"

record X509_PUBKEY =
  pubkey_algor :: "X509_ALGOR option"

text \<open>
  The certificate, as far as the shim looks into it: the two names, the two
  alternative-name extensions and the public key. An extension is \<open>None\<close> when it is
  absent or does not decode, which is when \<open>X509_get_ext_d2i\<close> returns NULL.
\<close>

record X509 =
  subject_name :: "X509_NAME option"
  issuer_name :: "X509_NAME option"
  subject_alt_name :: "GENERAL_NAMES option"
  issuer_alt_name :: "GENERAL_NAMES option"
  x509_pubkey :: "X509_PUBKEY option"

definition X509_get_subject_name :: "X509 \<Rightarrow> X509_NAME option" where
  "X509_get_subject_name x509 = subject_name x509"

definition X509_get_issuer_name :: "X509 \<Rightarrow> X509_NAME option" where
  "X509_get_issuer_name x509 = issuer_name x509"

definition X509_get_ext_d2i :: "X509 \<Rightarrow> int \<Rightarrow> GENERAL_NAMES option" where
  "X509_get_ext_d2i x509 nid =
     (if nid = NID_subject_alt_name then subject_alt_name x509
      else if nid = NID_issuer_alt_name then issuer_alt_name x509
      else None)"



definition X509_NAME_entry_count :: "X509_NAME \<Rightarrow> nat" where
  "X509_NAME_entry_count name = length (name_entries name)"

text \<open>\<open>X509_NAME_get_entry\<close> returns NULL for an index out of range.\<close>

definition X509_NAME_get_entry :: "X509_NAME \<Rightarrow> nat \<Rightarrow> X509_NAME_ENTRY option" where
  "X509_NAME_get_entry name i =
     (if i < length (name_entries name) then Some (name_entries name ! i) else None)"

definition OBJ_obj2nid :: "ASN1_OBJECT \<Rightarrow> int" where
  "OBJ_obj2nid oid = obj_nid oid"

text \<open>
  \<open>ASN1_STRING_print_ex(b, str, flags)\<close> renders \<open>str\<close> into the memory BIO \<open>b\<close>
  under \<open>flags\<close>. The rendering is OpenSSL's; the BIO is represented by the string
  and the flags of the one print call that filled it. \<open>BIO_new\<close> is taken to succeed.
  The call reads the string through its pointer, so on a wild pointer it is undefined
  behaviour; the functions that can make such a call have an \<open>option\<close> around their
  result, \<open>None\<close> for a run that ends there.
\<close>

record BIO =
  bio_str :: ASN1_STRING
  bio_flags :: int

definition ASN1_STRING_print_ex :: "ASN1_STRING \<Rightarrow> int \<Rightarrow> BIO" where
  "ASN1_STRING_print_ex str flags = \<lparr>bio_str = str, bio_flags = flags\<rparr>"

text \<open>
  The two calls that create and release a decoded alternative-name list, recorded in
  the order the function makes them. A \<open>X509_get_ext_d2i\<close> that returns NULL has
  created nothing and leaves no record.
\<close>

datatype heap_call =
    Decoded GENERAL_NAMES
  | GENERAL_NAMES_free GENERAL_NAMES

section \<open>CryptoNative_GetX509PublicKeyParameterBytes\<close>



section \<open>C string functions\<close>

text \<open>
  \<open>strncmp(s1, s2, n)\<close> on buffers given as the lists of their bytes: it compares at
  most \<open>n\<close> positions and stops after a NUL. \<open>None\<close> is a read past the end of a
  buffer.
\<close>

fun strncmp :: "string \<Rightarrow> string \<Rightarrow> nat \<Rightarrow> int option" where
  "strncmp s1 s2 0 = Some 0"
| "strncmp (c1 # s1) (c2 # s2) (Suc n) =
     (if c1 \<noteq> c2 then Some (int (of_char c1) - int (of_char c2))
      else if c1 = NUL then Some 0
      else strncmp s1 s2 n)"
| "strncmp _ _ (Suc n) = None"

text \<open>
  \<open>OBJ_obj2txt(buf, buf_len, a, 1)\<close> is OpenSSL's: it writes the dotted-decimal text of
  \<open>a\<close>, cut to \<open>buf_len - 1\<close> characters and NUL-terminated, and returns the length of
  the whole text. For a NULL object it writes the empty string and returns 0. Its
  return type is \<open>int\<close>: a text too long for an \<open>int\<close> is its error case, which
  returns -1. The result is the written part of the buffer and the return value.
\<close>

definition OBJ_obj2txt :: "nat \<Rightarrow> ASN1_OBJECT option \<Rightarrow> string \<times> int" where
  "OBJ_obj2txt buf_len a =
     (case a of
        None \<Rightarrow> ([NUL], 0)
      | Some obj \<Rightarrow>
          if int (length (obj_txt obj)) > INT_MAX then ([NUL], - 1)
          else (take (buf_len - 1) (obj_txt obj) @ [NUL], int (length (obj_txt obj))))"

section \<open>CryptoNative_GetX509NameInfo\<close>

text \<open>\<open>static const char szOidUpn[]\<close>, with its terminator: \<open>sizeof\<close> is its length.\<close>

definition szOidUpn :: string where
  "szOidUpn = ''1.3.6.1.4.1.311.20.2.3'' @ [NUL]"

text \<open>The conversion of an \<open>int\<close> to \<open>size_t\<close> in \<open>sizeof(szOidUpn) == cchLocalOid\<close>.\<close>

definition size_t_of_int :: "int \<Rightarrow> nat" where
  "size_t_of_int v = nat (v mod 2 ^ 64)"

text \<open>The locals of the Simple scan (lines 494 to 498).\<close>

record simple_locals =
  loc_cn :: "ASN1_STRING option"
  loc_ou :: "ASN1_STRING option"
  loc_o :: "ASN1_STRING option"
  loc_e :: "ASN1_STRING option"
  loc_firstRdn :: "ASN1_STRING option"

text \<open>
  The body of the loop of lines 501 to 542, run over the values that
  \<open>X509_NAME_get_entry\<close> returns for the indices the loop visits, in visiting order.
  A Common-Name entry ends the loop (\<open>break\<close>).
\<close>

fun simple_loop :: "X509_NAME_ENTRY option list \<Rightarrow> simple_locals \<Rightarrow> simple_locals" where
  "simple_loop [] l = l"
| "simple_loop (entry # rest) l =
     (case entry of
        None \<Rightarrow> simple_loop rest l
      | Some en \<Rightarrow>
          (case entry_object en of
             None \<Rightarrow> simple_loop rest l
           | Some oid \<Rightarrow>
               (case entry_data en of
                  None \<Rightarrow> simple_loop rest l
                | Some str \<Rightarrow>
                    let nid = OBJ_obj2nid oid in
                    if nid = NID_commonName then l\<lparr>loc_cn := Some str\<rparr>
                    else if nid = NID_organizationalUnitName
                      then simple_loop rest (l\<lparr>loc_ou := Some str\<rparr>)
                    else if nid = NID_organizationName
                      then simple_loop rest (l\<lparr>loc_o := Some str\<rparr>)
                    else if nid = NID_pkcs9_emailAddress
                      then simple_loop rest (l\<lparr>loc_e := Some str\<rparr>)
                    else if loc_firstRdn l = None
                      then simple_loop rest (l\<lparr>loc_firstRdn := Some str\<rparr>)
                    else simple_loop rest l)))"

text \<open>
  \<open>for (int i = X509_NAME_entry_count(name) - 1; i >= 0; --i)\<close> with
  \<open>X509_NAME_get_entry(name, i)\<close>: the entries read, last index first.
\<close>

definition entries_backwards :: "X509_NAME \<Rightarrow> X509_NAME_ENTRY option list" where
  "entries_backwards name = map (X509_NAME_get_entry name) (rev [0..<X509_NAME_entry_count name])"

definition simple_init :: simple_locals where
  "simple_init = \<lparr>loc_cn = None, loc_ou = None, loc_o = None, loc_e = None, loc_firstRdn = None\<rparr>"

text \<open>Lines 544 to 565: the answer chosen from the locals after the loop.\<close>

definition simple_answer :: "simple_locals \<Rightarrow> ASN1_STRING option" where
  "simple_answer l =
     (let answer = loc_cn l in
      if answer = None \<and> loc_firstRdn l \<noteq> None then
        (let answer = loc_ou l;
             answer = (if answer = None then loc_o l else answer);
             answer = (if answer = None then loc_e l else answer);
             answer = (if answer = None then loc_firstRdn l else answer)
         in answer)
      else answer)"

text \<open>
  Lines 488 to 574: the Simple phase. \<open>Some b\<close> is the \<open>return b\<close> of line 571; \<open>None\<close>
  is falling out of the block to line 576.
\<close>

definition simple_phase :: "X509 \<Rightarrow> int \<Rightarrow> int \<Rightarrow> BIO option" where
  "simple_phase x509 nameType forIssuer =
     (if nameType = NAME_TYPE_SIMPLE then
        (case (if forIssuer \<noteq> 0 then X509_get_issuer_name x509 else X509_get_subject_name x509) of
           None \<Rightarrow> None
         | Some name \<Rightarrow>
             (case simple_answer (simple_loop (entries_backwards name) simple_init) of
                None \<Rightarrow> None
              | Some answer \<Rightarrow> Some (ASN1_STRING_print_ex answer ASN1_STRFLGS_UTF8_CONVERT)))
      else None)"

text \<open>Lines 579 to 597: the \<open>switch\<close> that picks the expected tag.\<close>

definition expected_type :: "int \<Rightarrow> int" where
  "expected_type nameType =
     (if nameType = NAME_TYPE_DNS \<or> nameType = NAME_TYPE_DNSALT then GEN_DNS
      else if nameType = NAME_TYPE_SIMPLE \<or> nameType = NAME_TYPE_EMAIL then GEN_EMAIL
      else if nameType = NAME_TYPE_UPN then GEN_OTHERNAME
      else if nameType = NAME_TYPE_URL then GEN_URI
      else - 1)"

text \<open>Lines 634 to 638: the test that an other-name's \<open>type_id\<close> is the UPN OID.\<close>

definition upn_oid_matches :: "ASN1_OBJECT option \<Rightarrow> bool" where
  "upn_oid_matches tid =
     (case OBJ_obj2txt (length szOidUpn + 3) tid of
        (localOid, r) \<Rightarrow>
          let cchLocalOid = 1 + r in
          length szOidUpn = size_t_of_int cchLocalOid
          \<and> strncmp localOid szOidUpn (length szOidUpn) = Some 0)"

text \<open>
  Lines 614 to 650: the pointer \<open>str\<close> that an entry of the expected tag contributes.
  The members of the union \<open>d\<close> are read after the tag was compared and point to
  strings; the member of the other-name's value is read without looking at its type.
\<close>

definition alt_name_str :: "int \<Rightarrow> GENERAL_NAME \<Rightarrow> ASN1_STRING pointer" where
  "alt_name_str nameType altName =
     (if nameType = NAME_TYPE_DNS \<or> nameType = NAME_TYPE_DNSALT
        then pointer_of (d_dNSName altName)
      else if nameType = NAME_TYPE_SIMPLE \<or> nameType = NAME_TYPE_EMAIL
        then pointer_of (d_rfc822Name altName)
      else if nameType = NAME_TYPE_URL then pointer_of (d_uniformResourceIdentifier altName)
      else if nameType = NAME_TYPE_UPN then
        (case d_otherName altName of
           None \<Rightarrow> Null
         | Some v \<Rightarrow>
             if upn_oid_matches (type_id v) then
               (case othername_value v of
                  None \<Rightarrow> Null
                | Some t \<Rightarrow> value_asn1_string t)
             else Null)
      else Null)"

text \<open>
  The body of the loop of lines 606 to 660, run over the values that
  \<open>sk_GENERAL_NAME_value\<close> returns for the indices still to visit. \<open>Some (Some b)\<close>
  is the \<open>return b\<close> of line 657, after the print and the release of line 656;
  \<open>Some None\<close> is running off the end, which leads to line 662; \<open>None\<close> is the print
  of line 655 on a wild pointer, which comes before the release.
\<close>

fun alt_name_loop ::
  "GENERAL_NAMES \<Rightarrow> int \<Rightarrow> int \<Rightarrow> GENERAL_NAME option list \<Rightarrow>
   heap_call list \<times> BIO option option" where
  "alt_name_loop altNames nameType expectedType [] = ([], Some None)"
| "alt_name_loop altNames nameType expectedType (entry # rest) =
     (case entry of
        None \<Rightarrow> alt_name_loop altNames nameType expectedType rest
      | Some altName \<Rightarrow>
          if general_name_type altName = expectedType then
            (case alt_name_str nameType altName of
               Null \<Rightarrow> alt_name_loop altNames nameType expectedType rest
             | Valid str \<Rightarrow>
                 ([GENERAL_NAMES_free altNames],
                  Some (Some (ASN1_STRING_print_ex str ASN1_STRFLGS_UTF8_CONVERT)))
             | Wild \<Rightarrow> ([], None))
          else alt_name_loop altNames nameType expectedType rest)"

text \<open>
  \<open>for (i = 0; i < sk_GENERAL_NAME_num(sk); ++i)\<close> with \<open>sk_GENERAL_NAME_value(sk, i)\<close>:
  the entries read, first index first.
\<close>

definition names_forwards :: "GENERAL_NAMES \<Rightarrow> GENERAL_NAME option list" where
  "names_forwards sk = map (sk_GENERAL_NAME_value sk) [0..<sk_GENERAL_NAME_num sk]"

text \<open>Lines 576 to 664: the alternative-name phase.\<close>

definition alt_name_phase ::
  "X509 \<Rightarrow> int \<Rightarrow> int \<Rightarrow> heap_call list \<times> BIO option option" where
  "alt_name_phase x509 nameType forIssuer =
     (if nameType = NAME_TYPE_SIMPLE \<or> nameType = NAME_TYPE_DNS \<or> nameType = NAME_TYPE_DNSALT
         \<or> nameType = NAME_TYPE_EMAIL \<or> nameType = NAME_TYPE_UPN \<or> nameType = NAME_TYPE_URL
      then
        (case X509_get_ext_d2i x509
                (if forIssuer \<noteq> 0 then NID_issuer_alt_name else NID_subject_alt_name) of
           None \<Rightarrow> ([], Some None)
         | Some altNames \<Rightarrow>
             (case alt_name_loop altNames nameType (expected_type nameType) (names_forwards altNames) of
                (calls, None) \<Rightarrow> (Decoded altNames # calls, None)
              | (calls, Some (Some b)) \<Rightarrow> (Decoded altNames # calls, Some (Some b))
              | (calls, Some None) \<Rightarrow>
                  (Decoded altNames # calls @ [GENERAL_NAMES_free altNames], Some None)))
      else ([], Some None))"

text \<open>The body of the loop of lines 684 to 709, over the entries read.\<close>

fun legacy_loop :: "int \<Rightarrow> X509_NAME_ENTRY option list \<Rightarrow> BIO option" where
  "legacy_loop expectedNid [] = None"
| "legacy_loop expectedNid (entry # rest) =
     (case entry of
        None \<Rightarrow> legacy_loop expectedNid rest
      | Some en \<Rightarrow>
          (case entry_object en of
             None \<Rightarrow> legacy_loop expectedNid rest
           | Some oid \<Rightarrow>
               (case entry_data en of
                  None \<Rightarrow> legacy_loop expectedNid rest
                | Some str \<Rightarrow>
                    if OBJ_obj2nid oid = expectedNid then Some (ASN1_STRING_print_ex str 0)
                    else legacy_loop expectedNid rest)))"

text \<open>Lines 666 to 711: the single-attribute fallback of the Email and Dns modes.\<close>

definition legacy_phase :: "X509 \<Rightarrow> int \<Rightarrow> int \<Rightarrow> BIO option" where
  "legacy_phase x509 nameType forIssuer =
     (if nameType = NAME_TYPE_EMAIL \<or> nameType = NAME_TYPE_DNS then
        (let name = (if forIssuer \<noteq> 0 then X509_get_issuer_name x509 else X509_get_subject_name x509);
             expectedNid = (if nameType = NAME_TYPE_EMAIL then NID_pkcs9_emailAddress
                            else if nameType = NAME_TYPE_DNS then NID_commonName
                            else NID_undef)
         in case name of
              None \<Rightarrow> None
            | Some nm \<Rightarrow> legacy_loop expectedNid (entries_backwards nm))
      else None)"

text \<open>
  \<open>CryptoNative_GetX509NameInfo(x509, nameType, forIssuer)\<close>: the calls made on
  alternative-name lists, and the outcome: \<open>Some (Some b)\<close> returns the BIO \<open>b\<close>,
  \<open>Some None\<close> returns NULL, \<open>None\<close> is a run that ends in undefined behaviour.
\<close>

definition CryptoNative_GetX509NameInfo ::
  "X509 option \<Rightarrow> int \<Rightarrow> int \<Rightarrow> heap_call list \<times> BIO option option" where
  "CryptoNative_GetX509NameInfo x509 nameType forIssuer =
     (case x509 of
        None \<Rightarrow> ([], Some None)
      | Some x \<Rightarrow>
          if nameType < NAME_TYPE_SIMPLE \<or> nameType > NAME_TYPE_URL then ([], Some None)
          else
            (case simple_phase x nameType forIssuer of
               Some b \<Rightarrow> ([], Some (Some b))
             | None \<Rightarrow>
                 (case alt_name_phase x nameType forIssuer of
                    (calls, None) \<Rightarrow> (calls, None)
                  | (calls, Some (Some b)) \<Rightarrow> (calls, Some (Some b))
                  | (calls, Some None) \<Rightarrow> (calls, Some (legacy_phase x nameType forIssuer)))))"

section \<open>CryptoNative_CheckX509Hostname\<close>

text \<open>
  \<open>X509_check_host\<close> is OpenSSL's and is a parameter of the model. Each call the
  function makes to it is recorded with its arguments (the last one, \<open>peername\<close>, is
  always NULL). A function result \<open>None\<close> stands for undefined behaviour: a read
  through NULL or past the end of a buffer.
\<close>

record host_check_call =
  chk_x509 :: X509
  chk :: "string option"
  chklen :: nat
  chk_flags :: int

definition CryptoNative_CheckX509Hostname ::
  "(X509 \<Rightarrow> string option \<Rightarrow> nat \<Rightarrow> int \<Rightarrow> int) \<Rightarrow>
   X509 option \<Rightarrow> string option \<Rightarrow> int \<Rightarrow> host_check_call list \<times> int option" where
  "CryptoNative_CheckX509Hostname X509_check_host x509 hostname cchHostname =
     (case x509 of
        None \<Rightarrow> ([], Some (- 3))
      | Some x \<Rightarrow>
          if cchHostname > 0 \<and> hostname = None then ([], Some (- 4))
          else if cchHostname < 0 then ([], Some (- 5))
          else
            (case (if cchHostname > 0
                   then (case hostname of
                           Some (c # _) \<Rightarrow> Some (c = CHR ''.'')
                         | _ \<Rightarrow> None)
                   else Some False) of
               None \<Rightarrow> ([], None)
             | Some True \<Rightarrow> ([], Some 0)
             | Some False \<Rightarrow>
                 ([\<lparr>chk_x509 = x, chk = hostname, chklen = nat cchHostname,
                    chk_flags = X509_CHECK_FLAG_NO_PARTIAL_WILDCARDS\<rparr>],
                  Some (X509_check_host x hostname (nat cchHostname)
                          X509_CHECK_FLAG_NO_PARTIAL_WILDCARDS))))"

section \<open>CryptoNative_CheckX509IpAddress\<close>

text \<open>The bytes readable through a pointer: none through NULL.\<close>

definition buffer_of :: "'a list option \<Rightarrow> 'a list" where
  "buffer_of p = (case p of None \<Rightarrow> [] | Some b \<Rightarrow> b)"

text \<open>
  \<open>memcmp(s1, s2, n)\<close> may read all \<open>n\<close> bytes of both buffers; \<open>None\<close> when one of
  them is shorter.
\<close>

fun compare_bytes :: "uint8_t list \<Rightarrow> uint8_t list \<Rightarrow> int" where
  "compare_bytes (c1 # s1) (c2 # s2) =
     (if c1 \<noteq> c2 then int (of_char c1) - int (of_char c2) else compare_bytes s1 s2)"
| "compare_bytes _ _ = 0"

definition memcmp :: "uint8_t list \<Rightarrow> uint8_t list \<Rightarrow> nat \<Rightarrow> int option" where
  "memcmp s1 s2 n =
     (if n \<le> length s1 \<and> n \<le> length s2 then Some (compare_bytes (take n s1) (take n s2))
      else None)"

text \<open>\<open>tolower\<close> in the C locale, and \<open>strncasecmp\<close>, which like \<open>strncmp\<close> stops after a NUL.\<close>

definition tolower :: "char \<Rightarrow> char" where
  "tolower c =
     (let n = (of_char c :: nat) in if 65 \<le> n \<and> n \<le> 90 then char_of (n + 32) else c)"

fun strncasecmp :: "string \<Rightarrow> string \<Rightarrow> nat \<Rightarrow> int option" where
  "strncasecmp s1 s2 0 = Some 0"
| "strncasecmp (c1 # s1) (c2 # s2) (Suc n) =
     (if tolower c1 \<noteq> tolower c2 then Some (int (of_char (tolower c1)) - int (of_char (tolower c2)))
      else if c1 = NUL then Some 0
      else strncasecmp s1 s2 n)"
| "strncasecmp _ _ (Suc n) = None"

text \<open>
  The body of the loop of lines 794 to 816 over the values \<open>sk_GENERAL_NAME_value\<close>
  returns: \<open>Some True\<close> is \<open>success = 1; break\<close>, \<open>Some False\<close> is the end of the loop
  with \<open>success\<close> still 0. The entry pointer is dereferenced without a test.
\<close>

fun ip_san_loop :: "uint8_t list \<Rightarrow> int \<Rightarrow> GENERAL_NAME option list \<Rightarrow> bool option" where
  "ip_san_loop addressBytes addressBytesLen [] = Some False"
| "ip_san_loop addressBytes addressBytesLen (entry # rest) =
     (case entry of
        None \<Rightarrow> None
      | Some sanEntry \<Rightarrow>
          if general_name_type sanEntry \<noteq> GEN_IPADD
          then ip_san_loop addressBytes addressBytesLen rest
          else
            (case d_iPAddress sanEntry of
               None \<Rightarrow> ip_san_loop addressBytes addressBytesLen rest
             | Some ipAddr \<Rightarrow>
                 (case asn1_data ipAddr of
                    None \<Rightarrow> ip_san_loop addressBytes addressBytesLen rest
                  | Some data \<Rightarrow>
                      if asn1_length ipAddr \<noteq> addressBytesLen
                      then ip_san_loop addressBytes addressBytesLen rest
                      else
                        (case memcmp addressBytes data (nat addressBytesLen) of
                           None \<Rightarrow> None
                         | Some r \<Rightarrow>
                             if r = 0 then Some True
                             else ip_san_loop addressBytes addressBytesLen rest))))"

text \<open>
  \<open>X509_NAME_get_index_by_NID(name, nid, lastpos)\<close> is OpenSSL's: the index of the first
  entry after \<open>lastpos\<close> whose OID has the given id, or -1. An entry without an OID
  does not match.
\<close>

definition entry_has_nid :: "int \<Rightarrow> X509_NAME_ENTRY \<Rightarrow> bool" where
  "entry_has_nid nid en = (case entry_object en of None \<Rightarrow> False | Some oid \<Rightarrow> OBJ_obj2nid oid = nid)"

definition X509_NAME_get_index_by_NID :: "X509_NAME \<Rightarrow> int \<Rightarrow> int \<Rightarrow> int" where
  "X509_NAME_get_index_by_NID name nid lastpos =
     (let start = (if lastpos < 0 then 0 else nat lastpos + 1) in
      case find (\<lambda>i. entry_has_nid nid (name_entries name ! i))
             [start..<length (name_entries name)] of
        None \<Rightarrow> - 1
      | Some i \<Rightarrow> int i)"

lemma find_Some_holds: "find P xs = Some x \<Longrightarrow> P x \<and> x \<in> set xs"
  by (induction xs) (auto split: if_splits)

lemma get_index_by_NID_range:
  assumes "0 \<le> X509_NAME_get_index_by_NID name nid lastpos"
  shows "nat (lastpos + 1) \<le> nat (X509_NAME_get_index_by_NID name nid lastpos)"
    and "nat (X509_NAME_get_index_by_NID name nid lastpos) < length (name_entries name)"
    and "entry_has_nid nid (name_entries name ! nat (X509_NAME_get_index_by_NID name nid lastpos))"
proof -
  define start where "start = (if lastpos < 0 then 0 else nat lastpos + 1)"
  have start: "start = nat (lastpos + 1)"
    by (simp add: start_def nat_add_distrib)
  from assms obtain i
    where found: "find (\<lambda>i. entry_has_nid nid (name_entries name ! i))
                    [start..<length (name_entries name)] = Some i"
      and res: "X509_NAME_get_index_by_NID name nid lastpos = int i"
    by (auto simp: X509_NAME_get_index_by_NID_def start_def split: option.splits)
  from find_Some_holds [OF found] have "entry_has_nid nid (name_entries name ! i)"
    and "start \<le> i" and "i < length (name_entries name)"
    by simp_all
  then show "nat (lastpos + 1) \<le> nat (X509_NAME_get_index_by_NID name nid lastpos)"
    and "nat (X509_NAME_get_index_by_NID name nid lastpos) < length (name_entries name)"
    and "entry_has_nid nid (name_entries name ! nat (X509_NAME_get_index_by_NID name nid lastpos))"
    by (simp_all add: res start)
qed

definition X509_NAME_ENTRY_get_data :: "X509_NAME_ENTRY option \<Rightarrow> ASN1_STRING option" where
  "X509_NAME_ENTRY_get_data ne = (case ne of None \<Rightarrow> None | Some en \<Rightarrow> entry_data en)"

text \<open>
  The loop of lines 830 to 842, from the index \<open>i\<close> of the previous match (-1 at the
  start). \<open>cn->length\<close> is read without a test of \<open>cn\<close>.
\<close>

function cn_loop :: "X509_NAME \<Rightarrow> string option \<Rightarrow> int \<Rightarrow> int \<Rightarrow> bool option" where
  "cn_loop subject hostname cchHostname i =
     (let i' = X509_NAME_get_index_by_NID subject NID_commonName i in
      if i' \<ge> 0 then
        (case X509_NAME_ENTRY_get_data (X509_NAME_get_entry subject (nat i')) of
           None \<Rightarrow> None
         | Some cn \<Rightarrow>
             if asn1_length cn = cchHostname then
               (case strncasecmp (buffer_of (asn1_data cn)) (buffer_of hostname) (nat cchHostname) of
                  None \<Rightarrow> None
                | Some r \<Rightarrow>
                    if r = 0 then Some True
                    else cn_loop subject hostname cchHostname i')
             else cn_loop subject hostname cchHostname i')
      else Some False)"
  by pat_completeness auto
termination
proof (relation "measure (\<lambda>(subject, hostname, cchHostname, i). length (name_entries subject) - nat (i + 1))")
  show "wf (measure (\<lambda>(subject, hostname, cchHostname, i). length (name_entries subject) - nat (i + 1)))"
    by simp
next
  fix subject :: X509_NAME and hostname :: "string option" and cchHostname i i' :: int
  assume "i' = X509_NAME_get_index_by_NID subject NID_commonName i" and "0 \<le> i'"
  then have "nat (i + 1) \<le> nat i'" "nat i' < length (name_entries subject)"
    using get_index_by_NID_range [of subject NID_commonName i] by simp_all
  moreover from \<open>0 \<le> i'\<close> have "nat (i' + 1) = Suc (nat i')"
    by simp
  ultimately
  have "length (name_entries subject) - nat (i' + 1) < length (name_entries subject) - nat (i + 1)"
    by simp
  then show "((subject, hostname, cchHostname, i'), (subject, hostname, cchHostname, i))
      \<in> measure (\<lambda>(subject, hostname, cchHostname, i). length (name_entries subject) - nat (i + 1))"
    by simp
  then show "((subject, hostname, cchHostname, i'), (subject, hostname, cchHostname, i))
      \<in> measure (\<lambda>(subject, hostname, cchHostname, i). length (name_entries subject) - nat (i + 1))"
    .
qed

declare cn_loop.simps [simp del]

text \<open>
  \<open>CryptoNative_CheckX509IpAddress\<close>: the calls made on the alternative-name list and
  the return value.
\<close>

definition CryptoNative_CheckX509IpAddress ::
  "X509 option \<Rightarrow> uint8_t list option \<Rightarrow> int \<Rightarrow> string option \<Rightarrow> int \<Rightarrow>
   heap_call list \<times> int option" where
  "CryptoNative_CheckX509IpAddress x509 addressBytes addressBytesLen hostname cchHostname =
     (case x509 of
        None \<Rightarrow> ([], Some (- 2))
      | Some x \<Rightarrow>
          if cchHostname > 0 \<and> hostname = None then ([], Some (- 3))
          else if cchHostname < 0 then ([], Some (- 4))
          else if addressBytesLen < 0 then ([], Some (- 5))
          else
            (case addressBytes of
               None \<Rightarrow> ([], Some (- 6))
             | Some bytes \<Rightarrow>
                 (case (case X509_get_ext_d2i x NID_subject_alt_name of
                          None \<Rightarrow> ([], Some False)
                        | Some san \<Rightarrow>
                            (case ip_san_loop bytes addressBytesLen (names_forwards san) of
                               None \<Rightarrow> ([Decoded san], None)
                             | Some success \<Rightarrow>
                                 ([Decoded san, GENERAL_NAMES_free san], Some success))) of
                    (calls, None) \<Rightarrow> (calls, None)
                  | (calls, Some True) \<Rightarrow> (calls, Some 1)
                  | (calls, Some False) \<Rightarrow>
                      (case X509_get_subject_name x of
                         None \<Rightarrow> (calls, Some 0)
                       | Some subject \<Rightarrow>
                           (case cn_loop subject hostname cchHostname (- 1) of
                              None \<Rightarrow> (calls, None)
                            | Some success \<Rightarrow> (calls, Some (if success then 1 else 0)))))))"

text \<open>
  A list of calls in which every decoded list is released once, right after it was
  decoded, and nothing else is released.
\<close>

fun released_exactly_once :: "heap_call list \<Rightarrow> bool" where
  "released_exactly_once [] = True"
| "released_exactly_once (Decoded l # GENERAL_NAMES_free l' # rest) = (l = l' \<and> released_exactly_once rest)"
| "released_exactly_once _ = False"

section \<open>Describing the matches of CryptoNative_CheckX509IpAddress\<close>

text \<open>
  What it is for an alternative-name entry to match the address bytes, and for a
  Subject entry to match the hostname, in the words of the loops' tests; and whether
  a certificate has such an entry. \<open>string_holds_length\<close> says that the data pointer
  of a string is backed by at least \<open>length\<close> bytes.
\<close>

definition ip_entry_matches :: "uint8_t list \<Rightarrow> int \<Rightarrow> GENERAL_NAME \<Rightarrow> bool" where
  "ip_entry_matches addressBytes addressBytesLen e =
     (case d_iPAddress e of
        None \<Rightarrow> False
      | Some ipAddr \<Rightarrow>
          (case asn1_data ipAddr of
             None \<Rightarrow> False
           | Some d \<Rightarrow> asn1_length ipAddr = addressBytesLen
                \<and> memcmp addressBytes d (nat addressBytesLen) = Some 0))"

definition cn_entry_matches :: "string option \<Rightarrow> int \<Rightarrow> X509_NAME_ENTRY \<Rightarrow> bool" where
  "cn_entry_matches hostname cchHostname en =
     (entry_has_nid NID_commonName en \<and>
      (case entry_data en of
         None \<Rightarrow> False
       | Some cn \<Rightarrow> asn1_length cn = cchHostname
            \<and> strncasecmp (buffer_of (asn1_data cn)) (buffer_of hostname) (nat cchHostname) = Some 0))"

definition san_ip_matches :: "X509 \<Rightarrow> uint8_t list \<Rightarrow> int \<Rightarrow> bool" where
  "san_ip_matches x addressBytes addressBytesLen =
     (case subject_alt_name x of
        None \<Rightarrow> False
      | Some san \<Rightarrow> list_ex (ip_entry_matches addressBytes addressBytesLen) san)"

definition subject_cn_matches :: "X509 \<Rightarrow> string option \<Rightarrow> int \<Rightarrow> bool" where
  "subject_cn_matches x hostname cchHostname =
     (case subject_name x of
        None \<Rightarrow> False
      | Some subject \<Rightarrow> list_ex (cn_entry_matches hostname cchHostname) (name_entries subject))"

definition string_holds_length :: "ASN1_STRING \<Rightarrow> bool" where
  "string_holds_length s \<longleftrightarrow> nat (asn1_length s) \<le> length (buffer_of (asn1_data s))"

section \<open>Inputs within defined behaviour\<close>

text \<open>
  Inputs on which the two functions stay within defined behaviour. For
  \<open>CryptoNative_GetX509NameInfo\<close>: the value of every other-name entry of the list, read
  as a string pointer, is NULL or points to a string. For
  \<open>CryptoNative_CheckX509IpAddress\<close>: the two argument buffers are as long as their
  stated lengths, and so is the data of every IP entry and of every Common Name.
\<close>

definition othername_reads_as_string :: "GENERAL_NAME \<Rightarrow> bool" where
  "othername_reads_as_string altName =
     (case d_otherName altName of
        None \<Rightarrow> True
      | Some v \<Rightarrow>
          (case othername_value v of
             None \<Rightarrow> True
           | Some t \<Rightarrow> value_asn1_string t \<noteq> Wild))"

definition alt_names_read_as_strings :: "X509 \<Rightarrow> int \<Rightarrow> bool" where
  "alt_names_read_as_strings x forIssuer =
     (case X509_get_ext_d2i x (if forIssuer \<noteq> 0 then NID_issuer_alt_name else NID_subject_alt_name) of
        None \<Rightarrow> True
      | Some altNames \<Rightarrow> list_all othername_reads_as_string altNames)"

definition ip_check_buffers_hold ::
  "X509 \<Rightarrow> uint8_t list \<Rightarrow> int \<Rightarrow> string option \<Rightarrow> int \<Rightarrow> bool" where
  "ip_check_buffers_hold x addressBytes addressBytesLen hostname cchHostname =
     (nat addressBytesLen \<le> length addressBytes
      \<and> nat cchHostname \<le> length (buffer_of hostname)
      \<and> (case subject_alt_name x of
           None \<Rightarrow> True
         | Some san \<Rightarrow>
             list_all (\<lambda>e. case d_iPAddress e of None \<Rightarrow> True | Some ip \<Rightarrow> string_holds_length ip) san)
      \<and> (case subject_name x of
           None \<Rightarrow> True
         | Some subject \<Rightarrow>
             list_all (\<lambda>en. if entry_has_nid NID_commonName en
                             then (case entry_data en of
                                     None \<Rightarrow> False
                                   | Some cn \<Rightarrow> string_holds_length cn)
                             else True)
               (name_entries subject)))"

section \<open>Describing the Simple scan\<close>

text \<open>
  The notions the statements about the Simple scan are written in. An attribute is
  the pair of an entry's numeric id and its value; entries without an OID or a value
  are the ones the loop skips. \<open>scan_attrs\<close> lists a name's attributes in the order
  the loop visits them, last entry first. \<open>first_with\<close> is the first attribute in a
  list whose id satisfies a predicate, \<open>last_with\<close> the last one, and \<open>or_else\<close> is
  the \<open>??\<close> of the comment at line 481.
\<close>

definition entry_attr :: "X509_NAME_ENTRY \<Rightarrow> (int \<times> ASN1_STRING) option" where
  "entry_attr en =
     (case entry_object en of
        None \<Rightarrow> None
      | Some oid \<Rightarrow> (case entry_data en of None \<Rightarrow> None | Some str \<Rightarrow> Some (OBJ_obj2nid oid, str)))"

definition scan_attrs :: "X509_NAME \<Rightarrow> (int \<times> ASN1_STRING) list" where
  "scan_attrs name = List.map_filter entry_attr (rev (name_entries name))"

definition or_else :: "'a option \<Rightarrow> 'a option \<Rightarrow> 'a option" where
  "or_else a b = (case a of Some x \<Rightarrow> Some x | None \<Rightarrow> b)"

fun first_with :: "(int \<Rightarrow> bool) \<Rightarrow> (int \<times> ASN1_STRING) list \<Rightarrow> ASN1_STRING option" where
  "first_with p [] = None"
| "first_with p (a # as) = (if p (fst a) then Some (snd a) else first_with p as)"

fun last_with :: "(int \<Rightarrow> bool) \<Rightarrow> (int \<times> ASN1_STRING) list \<Rightarrow> ASN1_STRING option" where
  "last_with p [] = None"
| "last_with p (a # as) = or_else (last_with p as) (if p (fst a) then Some (snd a) else None)"

definition unrecognized :: "int \<Rightarrow> bool" where
  "unrecognized nid \<longleftrightarrow> nid \<noteq> NID_commonName \<and> nid \<noteq> NID_organizationalUnitName
     \<and> nid \<noteq> NID_organizationName \<and> nid \<noteq> NID_pkcs9_emailAddress"

text \<open>The locals after a visit to an attribute that is not a Common Name.\<close>

definition after_entry :: "simple_locals \<Rightarrow> int \<Rightarrow> ASN1_STRING \<Rightarrow> simple_locals" where
  "after_entry l nid str =
     (if nid = NID_organizationalUnitName then l\<lparr>loc_ou := Some str\<rparr>
      else if nid = NID_organizationName then l\<lparr>loc_o := Some str\<rparr>
      else if nid = NID_pkcs9_emailAddress then l\<lparr>loc_e := Some str\<rparr>
      else if loc_firstRdn l = None then l\<lparr>loc_firstRdn := Some str\<rparr>
      else l)"

text \<open>The text of the UPN OID, without terminator.\<close>

definition upn_text :: string where
  "upn_text = ''1.3.6.1.4.1.311.20.2.3''"

text \<open>Certificates for the concrete instances below.\<close>

definition text_string :: "string \<Rightarrow> ASN1_STRING" where
  "text_string s = \<lparr>asn1_length = int (length s), asn1_data = Some s\<rparr>"

definition attribute :: "int \<Rightarrow> string \<Rightarrow> X509_NAME_ENTRY" where
  "attribute nid s =
     \<lparr>entry_object = Some \<lparr>obj_nid = nid, obj_txt = []\<rparr>, entry_data = Some (text_string s)\<rparr>"

definition NID_domainComponent :: int where "NID_domainComponent = 391"

definition cert_with_subject :: "X509_NAME_ENTRY list \<Rightarrow> X509" where
  "cert_with_subject es =
     \<lparr>subject_name = Some \<lparr>name_entries = es, name_der = None\<rparr>, issuer_name = None,
      subject_alt_name = None, issuer_alt_name = None, x509_pubkey = None\<rparr>"

definition cert_example :: X509 where
  "cert_example =
     \<lparr>subject_name = Some \<lparr>name_entries = [attribute NID_commonName ''host.example''], name_der = None\<rparr>,
      issuer_name = None,
      subject_alt_name = Some [rfc822Name (Some (text_string ''admin@example''))],
      issuer_alt_name = None, x509_pubkey = None\<rparr>"

definition ipv4_loopback :: "uint8_t list" where
  "ipv4_loopback = [CHR 0x7F, CHR 0x00, CHR 0x00, CHR 0x01]"

definition ipv6_mapped_loopback :: "uint8_t list" where
  "ipv6_mapped_loopback = replicate 10 (CHR 0x00) @ [CHR 0xFF, CHR 0xFF] @ ipv4_loopback"

definition bytes_string :: "uint8_t list \<Rightarrow> ASN1_STRING" where
  "bytes_string d = \<lparr>asn1_length = int (length d), asn1_data = Some (d @ [NUL])\<rparr>"

definition cert_ipv6_san :: X509 where
  "cert_ipv6_san =
     \<lparr>subject_name = Some \<lparr>name_entries = [attribute NID_commonName ''first.example'',
          attribute NID_organizationName ''Org'', attribute NID_commonName ''Host.Example''],
          name_der = None\<rparr>,
      issuer_name = None,
      subject_alt_name = Some [dNSName (Some (text_string ''host.example'')),
          iPAddress (Some (bytes_string ipv6_mapped_loopback))],
      issuer_alt_name = None, x509_pubkey = None\<rparr>"

text \<open>
  Two certificates with one other-name entry under the UPN OID: the value of the
  first is a UTF8String, the value of the second is the BOOLEAN TRUE.
\<close>

definition upn_othername :: "ASN1_TYPE \<Rightarrow> GENERAL_NAME" where
  "upn_othername t =
     otherName (Some \<lparr>type_id = Some \<lparr>obj_nid = 649, obj_txt = upn_text\<rparr>, othername_value = Some t\<rparr>)"

definition cert_upn :: X509 where
  "cert_upn =
     \<lparr>subject_name = None, issuer_name = None,
      subject_alt_name = Some [upn_othername (any_string (Some (text_string ''user@corp'')))],
      issuer_alt_name = None, x509_pubkey = None\<rparr>"

definition cert_upn_boolean :: X509 where
  "cert_upn_boolean =
     \<lparr>subject_name = None, issuer_name = None,
      subject_alt_name = Some [upn_othername (any_boolean 0xff)],
      issuer_alt_name = None, x509_pubkey = None\<rparr>"



section \<open>EnsureOpenSsl10Initialized\<close>

text \<open>
  What the function gets from outside: the results of the library and system calls it
  makes. \<open>pthread_mutex_init env i\<close> is the return value of \<open>pthread_mutex_init\<close> on
  slot \<open>i\<close> of the array, \<open>malloc_succeeds env n\<close> tells whether \<open>malloc(n)\<close> returns a
  block, and \<open>CRYPTO_get_ex_new_index env c\<close> is the index returned for class \<open>c\<close>.
\<close>

record ssl10_env =
  CRYPTO_num_locks :: int
  sizeof_pthread_mutex_t :: nat
  SIZE_MAX :: nat
  malloc_succeeds :: "nat \<Rightarrow> bool"
  pthread_mutex_init :: "nat \<Rightarrow> int"
  RAND_poll :: int
  CRYPTO_get_ex_new_index :: "int \<Rightarrow> int"

text \<open>
  The globals the function reads and writes. \<open>g_locks\<close> is the lock array, given by
  its number of slots (\<open>None\<close> is NULL); \<open>locking_callback\<close> tells whether
  \<open>LockingCallback\<close> is installed.
\<close>

record ssl10_globals =
  g_locks :: "nat option"
  locking_callback :: bool
  g_x509_ocsp_index :: int
  g_ssl_sess_cert_index :: int

text \<open>The calls the function makes, in order, with the results that steer it.\<close>

datatype init_call =
    Malloc nat bool
  | MutexInit nat int
  | MutexDestroy nat
  | Free
  | SetLockingCallback
  | RandPoll int
  | AddAllAlgorithmsConf
  | LoadCryptoStrings
  | GetExNewIndex int

text \<open>
  Modelled from the spec: \<open>multiply_s\<close> is declared in pal_utilities.h, which is not
  under src. The spec has the allocation fail when the multiplication overflows: the
  product is delivered only if it fits a \<open>size_t\<close>.
\<close>

definition multiply_s :: "nat \<Rightarrow> nat \<Rightarrow> nat \<Rightarrow> nat option" where
  "multiply_s size_max a b = (if a * b \<le> size_max then Some (a * b) else None)"

text \<open>
  The loop of lines 1408 to 1415 from slot \<open>locksInitialized\<close> with \<open>remaining\<close>
  slots to go: the value of \<open>locksInitialized\<close> at the exit, whether every
  \<open>pthread_mutex_init\<close> returned 0, and the calls made.
\<close>

fun init_locks :: "(nat \<Rightarrow> int) \<Rightarrow> nat \<Rightarrow> nat \<Rightarrow> nat \<times> bool \<times> init_call list" where
  "init_locks mutex_init locksInitialized 0 = (locksInitialized, True, [])"
| "init_locks mutex_init locksInitialized (Suc remaining) =
     (if mutex_init locksInitialized \<noteq> 0
      then (locksInitialized, False, [MutexInit locksInitialized (mutex_init locksInitialized)])
      else (case init_locks mutex_init (Suc locksInitialized) remaining of
              (n, ok, calls) \<Rightarrow> (n, ok, MutexInit locksInitialized 0 # calls)))"

text \<open>The loop of lines 1446 to 1449, from \<open>i = locksInitialized - 1\<close> down to 0.\<close>

fun destroy_locks :: "nat \<Rightarrow> init_call list" where
  "destroy_locks 0 = []"
| "destroy_locks (Suc i) = MutexDestroy i # destroy_locks i"

text \<open>
  The code after the label \<open>done\<close> (lines 1440 to 1456), reached with \<open>ret\<close>,
  \<open>locksInitialized\<close>, the globals and the calls made so far. The function holds
  \<open>g_initLock\<close> from its first to its last statement; the model is of one call running
  alone and leaves the lock out.
\<close>

definition cleanup ::
  "int \<Rightarrow> nat \<Rightarrow> ssl10_globals \<Rightarrow> init_call list \<Rightarrow> int \<times> ssl10_globals \<times> init_call list" where
  "cleanup ret locksInitialized g calls =
     (if ret \<noteq> 0 then
        (case g_locks g of
           None \<Rightarrow> (ret, g, calls)
         | Some _ \<Rightarrow> (ret, g\<lparr>g_locks := None\<rparr>, calls @ destroy_locks locksInitialized @ [Free]))
      else (ret, g, calls))"

definition EnsureOpenSsl10Initialized ::
  "ssl10_env \<Rightarrow> ssl10_globals \<Rightarrow> int \<times> ssl10_globals \<times> init_call list" where
  "EnsureOpenSsl10Initialized env g =
     (if g_locks g \<noteq> None then cleanup 0 0 g []
      else
        let numLocks = CRYPTO_num_locks env in
        if numLocks \<le> 0 then cleanup 1 0 g []
        else
          (case multiply_s (SIZE_MAX env) (sizeof_pthread_mutex_t env) (nat numLocks) of
             None \<Rightarrow> cleanup 2 0 g []
           | Some allocationSize \<Rightarrow>
               if \<not> malloc_succeeds env allocationSize
               then cleanup 2 0 g [Malloc allocationSize False]
               else
                 let g = g\<lparr>g_locks := Some (nat numLocks)\<rparr> in
                 (case init_locks (pthread_mutex_init env) 0 (nat numLocks) of
                    (locksInitialized, ok, calls) \<Rightarrow>
                      if \<not> ok then cleanup 3 locksInitialized g (Malloc allocationSize True # calls)
                      else
                        let g = g\<lparr>locking_callback := True\<rparr>;
                            randPollResult = RAND_poll env;
                            calls = Malloc allocationSize True # calls
                                    @ [SetLockingCallback, RandPoll randPollResult]
                        in
                        if randPollResult < 1 then cleanup 4 locksInitialized g calls
                        else
                          let g = g\<lparr>g_x509_ocsp_index := CRYPTO_get_ex_new_index env 10,
                                    g_ssl_sess_cert_index := CRYPTO_get_ex_new_index env 3\<rparr>
                          in cleanup 0 locksInitialized g
                               (calls @ [AddAllAlgorithmsConf, LoadCryptoStrings,
                                         GetExNewIndex 10, GetExNewIndex 3]))))"

text \<open>
  Readings of a list of calls: the slots whose initialization succeeded, the slots
  destroyed, the number of successful allocations and of releases; and the two
  conditions on the environment under which the allocation and the mutex
  initialization fail.
\<close>

definition initialized_ok :: "init_call list \<Rightarrow> nat list" where
  "initialized_ok calls =
     List.map_filter (\<lambda>c. case c of MutexInit i r \<Rightarrow> if r = 0 then Some i else None | _ \<Rightarrow> None) calls"

definition destroyed :: "init_call list \<Rightarrow> nat list" where
  "destroyed calls =
     List.map_filter (\<lambda>c. case c of MutexDestroy i \<Rightarrow> Some i | _ \<Rightarrow> None) calls"

definition allocated :: "init_call list \<Rightarrow> nat" where
  "allocated calls = length (filter (\<lambda>c. case c of Malloc _ ok \<Rightarrow> ok | _ \<Rightarrow> False) calls)"

definition freed :: "init_call list \<Rightarrow> nat" where
  "freed calls = length (filter (\<lambda>c. c = Free) calls)"

definition allocation_fails :: "ssl10_env \<Rightarrow> bool" where
  "allocation_fails env =
     (case multiply_s (SIZE_MAX env) (sizeof_pthread_mutex_t env) (nat (CRYPTO_num_locks env)) of
        None \<Rightarrow> True
      | Some allocationSize \<Rightarrow> \<not> malloc_succeeds env allocationSize)"

definition mutex_init_fails :: "ssl10_env \<Rightarrow> bool" where
  "mutex_init_fails env =
     list_ex (\<lambda>i. pthread_mutex_init env i \<noteq> 0) [0..<nat (CRYPTO_num_locks env)]"

text \<open>An environment and the globals at process start, for the concrete instances below.\<close>

definition env_third_mutex_fails :: ssl10_env where
  "env_third_mutex_fails =
     \<lparr>CRYPTO_num_locks = 3, sizeof_pthread_mutex_t = 40, SIZE_MAX = 18446744073709551615,
      malloc_succeeds = (\<lambda>_. True), pthread_mutex_init = (\<lambda>i. if i = 2 then 12 else 0),
      RAND_poll = 1, CRYPTO_get_ex_new_index = (\<lambda>_. 0)\<rparr>"

definition globals_at_start :: ssl10_globals where
  "globals_at_start =
     \<lparr>g_locks = None, locking_callback = False, g_x509_ocsp_index = - 1,
      g_ssl_sess_cert_index = - 1\<rparr>"

section \<open>Properties of the buffer accessors\<close>















text \<open>
  Empty data is outside the amended statement: for a valid ASN.1 string of length 0,
  the call with capacity 0 returns 1 when a buffer is passed and 0 when \<open>pBuf\<close> is
  NULL.
\<close>

lemma buffer_probing_empty_data:
  "CryptoNative_GetAsn1StringBytes (Some \<lparr>asn1_length = 0, asn1_data = Some []\<rparr>) (Some []) 0
     = (1, Some [])
   \<and> CryptoNative_GetAsn1StringBytes (Some \<lparr>asn1_length = 0, asn1_data = Some []\<rparr>) None 0
     = (0, None)"
  by (simp add: CryptoNative_GetAsn1StringBytes_def memcpy_s_def Int32ToSizeT_def)

text \<open>
  Claim C10. For a non-NULL ASN.1 string of length 0 probed with a NULL buffer,
  \<open>CryptoNative_GetAsn1StringBytes\<close> returns 0, the negation of the required length 0,
  and the whole outcome is the one a NULL string pointer gives; a negative capacity
  returns 0 as well, whatever the other arguments are.
\<close>

theorem GetAsn1StringBytes_empty_probe_is_zero:
  "(asn1_length a = 0 \<longrightarrow>
      fst (CryptoNative_GetAsn1StringBytes (Some a) None cBuf) = 0
      \<and> fst (CryptoNative_GetAsn1StringBytes (Some a) None cBuf) = - asn1_length a
      \<and> CryptoNative_GetAsn1StringBytes (Some a) None cBuf
          = CryptoNative_GetAsn1StringBytes None None cBuf)
   \<and> (cBuf' < 0 \<longrightarrow> fst (CryptoNative_GetAsn1StringBytes asn1 pBuf cBuf') = 0)"
  by (auto simp: CryptoNative_GetAsn1StringBytes_def split: option.splits)

theorem GetAsn1StringBytes_empty_probe_is_zero_witness:
  "fst (CryptoNative_GetAsn1StringBytes (Some \<lparr>asn1_length = 0, asn1_data = Some []\<rparr>) None 0) = 0
   \<and> CryptoNative_GetAsn1StringBytes (Some \<lparr>asn1_length = 0, asn1_data = Some []\<rparr>) None 0
       = CryptoNative_GetAsn1StringBytes None None 0
   \<and> fst (CryptoNative_GetAsn1StringBytes (Some \<lparr>asn1_length = 3, asn1_data = Some ''abc''\<rparr>)
         (Some ''xyz'') (- 1)) = 0"
  using GetAsn1StringBytes_empty_probe_is_zero [of "\<lparr>asn1_length = 0, asn1_data = Some []\<rparr>" 0 "- 1"
      "Some \<lparr>asn1_length = 3, asn1_data = Some ''abc''\<rparr>" "Some ''xyz''"]
  by (simp add: CryptoNative_GetAsn1StringBytes_def)

section \<open>Properties of CryptoNative_GetX509NameInfo\<close>

lemma read_all_indices:
  "map (\<lambda>i. if i < length xs then Some (xs ! i) else None) [0..<length xs] = map Some xs"
proof -
  have "map (\<lambda>i. if i < length xs then Some (xs ! i) else None) [0..<length xs]
      = map (\<lambda>i. Some (xs ! i)) [0..<length xs]"
    by (rule map_cong) auto
  also have "\<dots> = map Some (map ((!) xs) [0..<length xs])"
    by simp
  finally show ?thesis
    by (simp only: map_nth)
qed

lemma entries_backwards_eq: "entries_backwards name = map Some (rev (name_entries name))"
  unfolding entries_backwards_def X509_NAME_entry_count_def
  by (simp add: rev_map [symmetric] X509_NAME_get_entry_def [abs_def] read_all_indices)

lemma or_else_simps [simp]: "or_else None b = b" "or_else (Some x) b = Some x" "or_else a None = a"
  by (simp_all add: or_else_def split: option.splits)

lemma entry_attr_SomeD:
  assumes "entry_attr e = Some (nid, str)"
  obtains oid where "entry_object e = Some oid" "entry_data e = Some str" "OBJ_obj2nid oid = nid"
  using assms by (auto simp: entry_attr_def split: option.splits)

lemma simple_loop_skip:
  "entry_attr e = None \<Longrightarrow> simple_loop (Some e # rest) l = simple_loop rest l"
  by (simp add: entry_attr_def split: option.splits)

lemma simple_loop_cn_step:
  assumes "entry_attr e = Some (NID_commonName, str)"
  shows "simple_loop (Some e # rest) l = l\<lparr>loc_cn := Some str\<rparr>"
  using assms by (elim entry_attr_SomeD) simp

lemma simple_loop_other_step:
  assumes "entry_attr e = Some (nid, str)" and "nid \<noteq> NID_commonName"
  shows "simple_loop (Some e # rest) l = simple_loop rest (after_entry l nid str)"
  using assms by (elim entry_attr_SomeD) (simp add: after_entry_def)

lemma nid_distinct:
  "NID_commonName \<noteq> NID_organizationalUnitName" "NID_commonName \<noteq> NID_organizationName"
  "NID_commonName \<noteq> NID_pkcs9_emailAddress" "NID_organizationalUnitName \<noteq> NID_organizationName"
  "NID_organizationalUnitName \<noteq> NID_pkcs9_emailAddress"
  "NID_organizationName \<noteq> NID_pkcs9_emailAddress"
  by (simp_all add: nid_defs)

lemma unrecognized_simps [simp]:
  "\<not> unrecognized NID_commonName" "\<not> unrecognized NID_organizationalUnitName"
  "\<not> unrecognized NID_organizationName" "\<not> unrecognized NID_pkcs9_emailAddress"
  by (simp_all add: unrecognized_def)

lemma simple_loop_cn:
  "first_with (\<lambda>n. n = NID_commonName) (List.map_filter entry_attr es) = Some c \<Longrightarrow>
   loc_cn (simple_loop (map Some es) l) = Some c"
proof (induction es arbitrary: l)
  case Nil
  then show ?case by simp
next
  case (Cons e es)
  show ?case
  proof (cases "entry_attr e")
    case None
    with Cons show ?thesis
      by (simp add: simple_loop_skip del: simple_loop.simps(2))
  next
    case (Some a)
    obtain nid str where a: "a = (nid, str)" by (cases a)
    show ?thesis
    proof (cases "nid = NID_commonName")
      case True
      with Cons.prems Some a show ?thesis
        by (simp add: simple_loop_cn_step del: simple_loop.simps(2))
    next
      case False
      with Cons.prems Some a
      have rest: "first_with (\<lambda>n. n = NID_commonName) (List.map_filter entry_attr es) = Some c"
        by simp
      from False Some a Cons.IH [OF rest] show ?thesis
        by (simp add: simple_loop_other_step del: simple_loop.simps(2))
    qed
  qed
qed

lemma simple_loop_no_cn:
  "first_with (\<lambda>n. n = NID_commonName) (List.map_filter entry_attr es) = None \<Longrightarrow>
   simple_loop (map Some es) l =
     l\<lparr>loc_ou := or_else (last_with (\<lambda>n. n = NID_organizationalUnitName) (List.map_filter entry_attr es)) (loc_ou l),
       loc_o := or_else (last_with (\<lambda>n. n = NID_organizationName) (List.map_filter entry_attr es)) (loc_o l),
       loc_e := or_else (last_with (\<lambda>n. n = NID_pkcs9_emailAddress) (List.map_filter entry_attr es)) (loc_e l),
       loc_firstRdn := or_else (loc_firstRdn l) (first_with unrecognized (List.map_filter entry_attr es))\<rparr>"
proof (induction es arbitrary: l)
  case Nil
  then show ?case by simp
next
  case (Cons e es)
  show ?case
  proof (cases "entry_attr e")
    case None
    with Cons show ?thesis
      by (simp add: simple_loop_skip del: simple_loop.simps(2))
  next
    case (Some a)
    obtain nid str where a: "a = (nid, str)" by (cases a)
    from Cons.prems Some a have nocn: "nid \<noteq> NID_commonName"
      and rest: "first_with (\<lambda>n. n = NID_commonName) (List.map_filter entry_attr es) = None"
      by (simp_all split: if_splits)
    have step: "simple_loop (map Some (e # es)) l = simple_loop (map Some es) (after_entry l nid str)"
      using Some a nocn by (simp add: simple_loop_other_step del: simple_loop.simps(2))
    consider (ou) "nid = NID_organizationalUnitName" | (o) "nid = NID_organizationName"
      | (e) "nid = NID_pkcs9_emailAddress" | (other) "unrecognized nid"
      using nocn by (auto simp: unrecognized_def)
    then show ?thesis
    proof cases
      case ou
      with Some a show ?thesis
        unfolding step Cons.IH [OF rest]
        by (cases "last_with (\<lambda>n. n = NID_organizationalUnitName) (List.map_filter entry_attr es)")
          (simp_all add: after_entry_def nid_distinct)
    next
      case o
      with Some a show ?thesis
        unfolding step Cons.IH [OF rest]
        by (cases "last_with (\<lambda>n. n = NID_organizationName) (List.map_filter entry_attr es)")
          (simp_all add: after_entry_def nid_distinct nid_distinct [symmetric])
    next
      case e
      with Some a show ?thesis
        unfolding step Cons.IH [OF rest]
        by (cases "last_with (\<lambda>n. n = NID_pkcs9_emailAddress) (List.map_filter entry_attr es)")
          (simp_all add: after_entry_def nid_distinct nid_distinct [symmetric])
    next
      case other
      then have "nid \<noteq> NID_commonName" "nid \<noteq> NID_organizationalUnitName"
        "nid \<noteq> NID_organizationName" "nid \<noteq> NID_pkcs9_emailAddress"
        by (simp_all add: unrecognized_def)
      with Some a other show ?thesis
        unfolding step Cons.IH [OF rest]
        by (cases "loc_firstRdn l") (simp_all add: after_entry_def)
    qed
  qed
qed


lemma scan_attrs_loop_cn:
  "first_with (\<lambda>n. n = NID_commonName) (scan_attrs name) = Some c \<Longrightarrow>
   simple_answer (simple_loop (entries_backwards name) simple_init) = Some c"
  unfolding scan_attrs_def entries_backwards_eq
  by (drule simple_loop_cn [where l = simple_init]) (simp add: simple_answer_def)

lemma scan_attrs_loop_no_cn:
  assumes "first_with (\<lambda>n. n = NID_commonName) (scan_attrs name) = None"
  shows "simple_answer (simple_loop (entries_backwards name) simple_init) =
     (case first_with unrecognized (scan_attrs name) of
        None \<Rightarrow> None
      | Some other \<Rightarrow>
          or_else (last_with (\<lambda>n. n = NID_organizationalUnitName) (scan_attrs name))
            (or_else (last_with (\<lambda>n. n = NID_organizationName) (scan_attrs name))
              (or_else (last_with (\<lambda>n. n = NID_pkcs9_emailAddress) (scan_attrs name))
                (Some other))))"
  using assms unfolding scan_attrs_def entries_backwards_eq
  by (simp add: simple_loop_no_cn simple_answer_def simple_init_def Let_def or_else_def
      split: option.splits)

lemma GetX509NameInfo_simple:
  "CryptoNative_GetX509NameInfo (Some x) NAME_TYPE_SIMPLE forIssuer =
     (case simple_phase x NAME_TYPE_SIMPLE forIssuer of
        Some b \<Rightarrow> ([], Some (Some b))
      | None \<Rightarrow> (fst (alt_name_phase x NAME_TYPE_SIMPLE forIssuer),
                  snd (alt_name_phase x NAME_TYPE_SIMPLE forIssuer)))"
  by (simp add: CryptoNative_GetX509NameInfo_def legacy_phase_def name_type_defs
      split: option.splits prod.splits)

text \<open>
  Claim C1, as amended. In Simple mode the chosen name (Subject unless \<open>forIssuer\<close>,
  else Issuer) is scanned from the last entry to the first. The first Common Name met
  ends the scan and is returned, rendered with \<open>ASN1_STRFLGS_UTF8_CONVERT\<close>. If the scan
  met no Common Name but met an attribute other than Common Name, Organizational Unit,
  Organization and Email, the result is the Organizational Unit met last in the scan
  (the one of lowest index), else the Organization met last, else the Email met last,
  else the first such other attribute met. In particular a name without Common Name,
  with an Organizational Unit and with such an other attribute yields an
  Organizational Unit, and no alternative-name list is decoded. Nothing is said here
  about a name that has neither a Common Name nor such an other attribute.
\<close>

theorem simple_mode_precedence:
  assumes "(if forIssuer \<noteq> 0 then issuer_name x else subject_name x) = Some name"
  shows
    "(first_with (\<lambda>n. n = NID_commonName) (scan_attrs name) = Some cn \<longrightarrow>
        CryptoNative_GetX509NameInfo (Some x) NAME_TYPE_SIMPLE forIssuer
          = ([], Some (Some (ASN1_STRING_print_ex cn ASN1_STRFLGS_UTF8_CONVERT))))
     \<and> (first_with (\<lambda>n. n = NID_commonName) (scan_attrs name) = None
        \<and> first_with unrecognized (scan_attrs name) = Some other \<longrightarrow>
        CryptoNative_GetX509NameInfo (Some x) NAME_TYPE_SIMPLE forIssuer
          = ([], Some (map_option (\<lambda>answer. ASN1_STRING_print_ex answer ASN1_STRFLGS_UTF8_CONVERT)
              (or_else (last_with (\<lambda>n. n = NID_organizationalUnitName) (scan_attrs name))
                (or_else (last_with (\<lambda>n. n = NID_organizationName) (scan_attrs name))
                  (or_else (last_with (\<lambda>n. n = NID_pkcs9_emailAddress) (scan_attrs name))
                    (Some other)))))))
     \<and> (first_with (\<lambda>n. n = NID_commonName) (scan_attrs name) = None
        \<and> first_with unrecognized (scan_attrs name) = Some other
        \<and> last_with (\<lambda>n. n = NID_organizationalUnitName) (scan_attrs name) = Some ou \<longrightarrow>
        CryptoNative_GetX509NameInfo (Some x) NAME_TYPE_SIMPLE forIssuer
          = ([], Some (Some (ASN1_STRING_print_ex ou ASN1_STRFLGS_UTF8_CONVERT))))"
proof -
  have name: "(if forIssuer \<noteq> 0 then X509_get_issuer_name x else X509_get_subject_name x) = Some name"
    using assms by (simp add: X509_get_issuer_name_def X509_get_subject_name_def split: if_splits)
  have phase: "simple_phase x NAME_TYPE_SIMPLE forIssuer =
      map_option (\<lambda>answer. ASN1_STRING_print_ex answer ASN1_STRFLGS_UTF8_CONVERT)
        (simple_answer (simple_loop (entries_backwards name) simple_init))"
    unfolding simple_phase_def name by (simp split: option.splits)
  have cn: "CryptoNative_GetX509NameInfo (Some x) NAME_TYPE_SIMPLE forIssuer
      = ([], Some (Some (ASN1_STRING_print_ex cn ASN1_STRFLGS_UTF8_CONVERT)))"
    if "first_with (\<lambda>n. n = NID_commonName) (scan_attrs name) = Some cn"
    using scan_attrs_loop_cn [OF that] by (simp add: GetX509NameInfo_simple phase)
  have fallback: "CryptoNative_GetX509NameInfo (Some x) NAME_TYPE_SIMPLE forIssuer
      = ([], Some (map_option (\<lambda>answer. ASN1_STRING_print_ex answer ASN1_STRFLGS_UTF8_CONVERT)
          (or_else (last_with (\<lambda>n. n = NID_organizationalUnitName) (scan_attrs name))
            (or_else (last_with (\<lambda>n. n = NID_organizationName) (scan_attrs name))
              (or_else (last_with (\<lambda>n. n = NID_pkcs9_emailAddress) (scan_attrs name))
                (Some other))))))"
    if "first_with (\<lambda>n. n = NID_commonName) (scan_attrs name) = None"
      and "first_with unrecognized (scan_attrs name) = Some other"
    using scan_attrs_loop_no_cn [OF that(1)] that(2)
    by (simp add: GetX509NameInfo_simple phase or_else_def split: option.splits)
  show ?thesis
    using cn fallback by (auto simp: or_else_def)
qed

theorem simple_mode_precedence_witness:
  "CryptoNative_GetX509NameInfo
     (Some (cert_with_subject [attribute NID_commonName ''a'', attribute NID_organizationalUnitName ''Eng'',
        attribute NID_commonName ''b'', attribute NID_domainComponent ''corp'']))
     NAME_TYPE_SIMPLE 0
     = ([], Some (Some (ASN1_STRING_print_ex (text_string ''b'') ASN1_STRFLGS_UTF8_CONVERT)))
   \<and> CryptoNative_GetX509NameInfo
     (Some (cert_with_subject [attribute NID_organizationName ''Org'',
        attribute NID_organizationalUnitName ''Eng'', attribute NID_domainComponent ''corp'']))
     NAME_TYPE_SIMPLE 0
     = ([], Some (Some (ASN1_STRING_print_ex (text_string ''Eng'') ASN1_STRFLGS_UTF8_CONVERT)))"
proof -
  let ?es1 = "[attribute NID_commonName ''a'', attribute NID_organizationalUnitName ''Eng'',
        attribute NID_commonName ''b'', attribute NID_domainComponent ''corp'']"
  let ?es2 = "[attribute NID_organizationName ''Org'',
        attribute NID_organizationalUnitName ''Eng'', attribute NID_domainComponent ''corp'']"
  let ?n1 = "\<lparr>name_entries = ?es1, name_der = None\<rparr>"
  let ?n2 = "\<lparr>name_entries = ?es2, name_der = None\<rparr>"
  have s1: "(if (0::int) \<noteq> 0 then issuer_name (cert_with_subject ?es1)
             else subject_name (cert_with_subject ?es1)) = Some ?n1"
    by (simp add: cert_with_subject_def)
  have s2: "(if (0::int) \<noteq> 0 then issuer_name (cert_with_subject ?es2)
             else subject_name (cert_with_subject ?es2)) = Some ?n2"
    by (simp add: cert_with_subject_def)
  have c1: "first_with (\<lambda>n. n = NID_commonName) (scan_attrs ?n1) = Some (text_string ''b'')"
    by code_simp
  have c2: "first_with (\<lambda>n. n = NID_commonName) (scan_attrs ?n2) = None"
    "first_with unrecognized (scan_attrs ?n2) = Some (text_string ''corp'')"
    "last_with (\<lambda>n. n = NID_organizationalUnitName) (scan_attrs ?n2) = Some (text_string ''Eng'')"
    by code_simp+
  show ?thesis
    using simple_mode_precedence [OF s1, of "text_string ''b''"] c1
      simple_mode_precedence [OF s2, of _ "text_string ''corp''" "text_string ''Eng''"] c2
    by blast
qed

text \<open>
  The claim as stated fails where a name has two Organizational Units: the scan keeps
  the one it meets last, not the one it meets first. Here the scan meets \<open>corp\<close>, then
  \<open>Ops\<close>, then \<open>Eng\<close>, and the result is \<open>Eng\<close>.
\<close>

theorem simple_mode_first_ou_counterexample:
  "first_with (\<lambda>n. n = NID_organizationalUnitName)
     (scan_attrs \<lparr>name_entries = [attribute NID_organizationalUnitName ''Eng'',
        attribute NID_organizationalUnitName ''Ops'', attribute NID_domainComponent ''corp''],
        name_der = None\<rparr>) = Some (text_string ''Ops'')
   \<and> snd (CryptoNative_GetX509NameInfo
        (Some (cert_with_subject [attribute NID_organizationalUnitName ''Eng'',
           attribute NID_organizationalUnitName ''Ops'', attribute NID_domainComponent ''corp'']))
        NAME_TYPE_SIMPLE 0)
      = Some (Some (ASN1_STRING_print_ex (text_string ''Eng'') ASN1_STRFLGS_UTF8_CONVERT))
   \<and> text_string ''Eng'' \<noteq> text_string ''Ops''"
  by code_simp

text \<open>
  A name with an Organizational Unit and nothing else: \<open>firstRdn\<close> is only set by an
  attribute that is none of the four known ones, so the test of line 547 fails, the
  fallbacks are skipped and the function goes on to the alternative names; with none
  present it returns NULL.
\<close>

lemma simple_mode_ou_only_returns_null:
  "CryptoNative_GetX509NameInfo (Some (cert_with_subject [attribute NID_organizationalUnitName ''Eng'']))
     NAME_TYPE_SIMPLE 0 = ([], Some None)"
  by code_simp


section \<open>The UPN OID test\<close>










lemma upn_exact_oid_found:
  "alt_name_loop [] NAME_TYPE_UPN (expected_type NAME_TYPE_UPN)
        [Some (otherName (Some \<lparr>type_id = Some \<lparr>obj_nid = 0, obj_txt = ''1.3.6.1.4.1.311.20.2.3''\<rparr>,
            othername_value = Some (any_string (Some (text_string ''user@corp'')))\<rparr>))]
     = ([GENERAL_NAMES_free []],
        Some (Some (ASN1_STRING_print_ex (text_string ''user@corp'') ASN1_STRFLGS_UTF8_CONVERT)))"
  by code_simp

section \<open>Rendering flags\<close>

lemma alt_name_loop_flags:
  "snd (alt_name_loop altNames nameType expectedType es) = Some (Some b) \<Longrightarrow>
   bio_flags b = ASN1_STRFLGS_UTF8_CONVERT"
  by (induction es)
    (auto simp: ASN1_STRING_print_ex_def split: option.splits if_splits pointer.splits)

lemma alt_name_loop_flags_pair:
  "alt_name_loop altNames nameType expectedType es = (calls, Some (Some b)) \<Longrightarrow>
   bio_flags b = ASN1_STRFLGS_UTF8_CONVERT"
  using alt_name_loop_flags [of altNames nameType expectedType es b] by simp

lemma legacy_loop_flags: "legacy_loop expectedNid es = Some b \<Longrightarrow> bio_flags b = 0"
  by (induction es) (auto simp: ASN1_STRING_print_ex_def split: option.splits if_splits)

lemma simple_phase_flags:
  "simple_phase x nameType forIssuer = Some b \<Longrightarrow> bio_flags b = ASN1_STRFLGS_UTF8_CONVERT"
  by (auto simp: simple_phase_def ASN1_STRING_print_ex_def split: option.splits if_splits)

lemma alt_name_phase_flags:
  "snd (alt_name_phase x nameType forIssuer) = Some (Some b) \<Longrightarrow>
   bio_flags b = ASN1_STRFLGS_UTF8_CONVERT"
  by (auto simp: alt_name_phase_def split: option.splits if_splits prod.splits
      dest: alt_name_loop_flags_pair)

lemma legacy_phase_flags:
  "legacy_phase x nameType forIssuer = Some b \<Longrightarrow>
   bio_flags b = 0 \<and> (nameType = NAME_TYPE_EMAIL \<or> nameType = NAME_TYPE_DNS)"
  by (auto simp: legacy_phase_def Let_def split: option.splits if_splits dest: legacy_loop_flags)

lemma GetX509NameInfo_phases:
  "snd (CryptoNative_GetX509NameInfo (Some x) nameType forIssuer) = Some (Some b) \<Longrightarrow>
   simple_phase x nameType forIssuer = Some b
   \<or> simple_phase x nameType forIssuer = None
       \<and> snd (alt_name_phase x nameType forIssuer) = Some (Some b)
   \<or> simple_phase x nameType forIssuer = None
       \<and> snd (alt_name_phase x nameType forIssuer) = Some None
       \<and> legacy_phase x nameType forIssuer = Some b"
  by (auto simp: CryptoNative_GetX509NameInfo_def split: option.splits if_splits prod.splits)


text \<open>
  Claim C9. A BIO returned by the Simple phase or by the alternative-name phase was
  rendered with \<open>ASN1_STRFLGS_UTF8_CONVERT\<close>; a BIO returned by the single-attribute
  fallback was rendered with flags 0, and that fallback only answers in the Email and
  Dns modes. The two flag values differ, and every BIO the function returns comes
  from one of the three phases, tried in this order.
\<close>

theorem rendering_flags_asymmetry:
  "(simple_phase x nameType forIssuer = Some b \<longrightarrow> bio_flags b = ASN1_STRFLGS_UTF8_CONVERT)
   \<and> (snd (alt_name_phase x nameType forIssuer) = Some (Some b) \<longrightarrow>
        bio_flags b = ASN1_STRFLGS_UTF8_CONVERT)
   \<and> (legacy_phase x nameType forIssuer = Some b \<longrightarrow>
        bio_flags b = 0 \<and> (nameType = NAME_TYPE_EMAIL \<or> nameType = NAME_TYPE_DNS))
   \<and> ASN1_STRFLGS_UTF8_CONVERT \<noteq> 0
   \<and> (snd (CryptoNative_GetX509NameInfo (Some x) nameType forIssuer) = Some (Some b) \<longrightarrow>
        simple_phase x nameType forIssuer = Some b
        \<or> simple_phase x nameType forIssuer = None
            \<and> snd (alt_name_phase x nameType forIssuer) = Some (Some b)
        \<or> simple_phase x nameType forIssuer = None
            \<and> snd (alt_name_phase x nameType forIssuer) = Some None
            \<and> legacy_phase x nameType forIssuer = Some b)"
  using simple_phase_flags [of x nameType forIssuer b]
    alt_name_phase_flags [of x nameType forIssuer b]
    legacy_phase_flags [of x nameType forIssuer b]
    GetX509NameInfo_phases [of x nameType forIssuer b]
  by (simp add: ASN1_STRFLGS_UTF8_CONVERT_def)

theorem rendering_flags_asymmetry_witness:
  "snd (CryptoNative_GetX509NameInfo (Some cert_example) NAME_TYPE_SIMPLE 0)
     = Some (Some \<lparr>bio_str = text_string ''host.example'', bio_flags = ASN1_STRFLGS_UTF8_CONVERT\<rparr>)
   \<and> snd (CryptoNative_GetX509NameInfo (Some cert_example) NAME_TYPE_EMAIL 0)
     = Some (Some \<lparr>bio_str = text_string ''admin@example'', bio_flags = ASN1_STRFLGS_UTF8_CONVERT\<rparr>)
   \<and> snd (CryptoNative_GetX509NameInfo (Some cert_example) NAME_TYPE_DNS 0)
     = Some (Some \<lparr>bio_str = text_string ''host.example'', bio_flags = 0\<rparr>)
   \<and> legacy_phase cert_example NAME_TYPE_DNS 0
     = Some \<lparr>bio_str = text_string ''host.example'', bio_flags = 0\<rparr>"
proof -
  have r: "snd (CryptoNative_GetX509NameInfo (Some cert_example) NAME_TYPE_SIMPLE 0)
       = Some (Some (ASN1_STRING_print_ex (text_string ''host.example'') ASN1_STRFLGS_UTF8_CONVERT))"
    "snd (CryptoNative_GetX509NameInfo (Some cert_example) NAME_TYPE_EMAIL 0)
       = Some (Some (ASN1_STRING_print_ex (text_string ''admin@example'') ASN1_STRFLGS_UTF8_CONVERT))"
    "snd (CryptoNative_GetX509NameInfo (Some cert_example) NAME_TYPE_DNS 0)
       = Some (Some (ASN1_STRING_print_ex (text_string ''host.example'') 0))"
    "legacy_phase cert_example NAME_TYPE_DNS 0
       = Some (ASN1_STRING_print_ex (text_string ''host.example'') 0)"
    by code_simp+
  have "bio_flags (ASN1_STRING_print_ex (text_string ''host.example'') 0) = 0"
    using rendering_flags_asymmetry [of cert_example NAME_TYPE_DNS 0
        "ASN1_STRING_print_ex (text_string ''host.example'') 0"] r(4)
    by blast
  then show ?thesis
    using r by (simp add: ASN1_STRING_print_ex_def)
qed


section \<open>Properties of CryptoNative_CheckX509Hostname\<close>

text \<open>
  Claim C4. For every certificate and every hostname of positive length whose first
  character is a dot, \<open>CryptoNative_CheckX509Hostname\<close> returns 0 and makes no call to
  \<open>X509_check_host\<close>. For every other hostname that passes the input checks (length
  not negative, a buffer present when the length is positive) it makes exactly one
  call, with the hostname, its length and the flag
  \<open>X509_CHECK_FLAG_NO_PARTIAL_WILDCARDS\<close>, and returns what that call returns.
\<close>

theorem hostname_leading_dot_rejected:
  "(0 < cchHostname \<longrightarrow>
      CryptoNative_CheckX509Hostname X509_check_host (Some x) (Some (CHR ''.'' # rest)) cchHostname
        = ([], Some 0))
   \<and> (0 \<le> cchHostname \<and> (0 < cchHostname \<longrightarrow> (\<exists>c rest. hostname = Some (c # rest) \<and> c \<noteq> CHR ''.'')) \<longrightarrow>
      CryptoNative_CheckX509Hostname X509_check_host (Some x) hostname cchHostname
        = ([\<lparr>chk_x509 = x, chk = hostname, chklen = nat cchHostname,
             chk_flags = X509_CHECK_FLAG_NO_PARTIAL_WILDCARDS\<rparr>],
           Some (X509_check_host x hostname (nat cchHostname) X509_CHECK_FLAG_NO_PARTIAL_WILDCARDS)))"
  by (auto simp: CryptoNative_CheckX509Hostname_def)

theorem hostname_leading_dot_rejected_witness:
  "CryptoNative_CheckX509Hostname (\<lambda>x h n f. 1) (Some cert_example) (Some ''.example.com'') 12
     = ([], Some 0)
   \<and> CryptoNative_CheckX509Hostname (\<lambda>x h n f. 1) (Some cert_example) (Some ''host.example'') 12
     = ([\<lparr>chk_x509 = cert_example, chk = Some ''host.example'', chklen = 12,
          chk_flags = X509_CHECK_FLAG_NO_PARTIAL_WILDCARDS\<rparr>], Some 1)"
  using hostname_leading_dot_rejected [of 12 "\<lambda>x h n f. 1" cert_example "''example.com''"
      "Some ''host.example''"]
  by simp

section \<open>Properties of CryptoNative_CheckX509IpAddress\<close>

lemma of_char_diff_0: "int (of_char c1) - int (of_char c2) = 0 \<longleftrightarrow> c1 = c2"
  by simp

lemma compare_bytes_0: "length xs = length ys \<Longrightarrow> compare_bytes xs ys = 0 \<longleftrightarrow> xs = ys"
  by (induction xs ys rule: list_induct2) auto

lemma memcmp_0:
  "memcmp s1 s2 n = Some 0 \<longleftrightarrow> n \<le> length s1 \<and> n \<le> length s2 \<and> take n s1 = take n s2"
  by (auto simp: memcmp_def compare_bytes_0)

lemma names_forwards_eq: "names_forwards sk = map Some sk"
  by (simp add: names_forwards_def sk_GENERAL_NAME_num_def sk_GENERAL_NAME_value_def [abs_def]
      read_all_indices)

lemma ip_san_loop_result:
  "ip_san_loop addressBytes addressBytesLen (map Some es) = Some r \<Longrightarrow>
   r = list_ex (ip_entry_matches addressBytes addressBytesLen) es"
proof (induction es)
  case Nil
  then show ?case by simp
next
  case (Cons e es)
  show ?case
  proof (cases "ip_entry_matches addressBytes addressBytesLen e")
    case True
    then have "general_name_type e = GEN_IPADD"
      by (cases e) (simp_all add: ip_entry_matches_def)
    with True Cons.prems show ?thesis
      by (auto simp: ip_entry_matches_def split: option.splits if_splits)
  next
    case False
    with Cons.prems have "ip_san_loop addressBytes addressBytesLen (map Some es) = Some r"
      by (auto simp: ip_entry_matches_def split: option.splits if_splits)
    with Cons.IH False show ?thesis by simp
  qed
qed


lemma get_index_by_NID_none:
  assumes "X509_NAME_get_index_by_NID name nid lastpos < 0"
    and "nat (lastpos + 1) \<le> j" and "j < length (name_entries name)"
  shows "\<not> entry_has_nid nid (name_entries name ! j)"
proof -
  have start: "(if lastpos < 0 then 0 else nat lastpos + 1) = nat (lastpos + 1)"
    by (simp add: nat_add_distrib)
  from assms(1) have "find (\<lambda>i. entry_has_nid nid (name_entries name ! i))
      [nat (lastpos + 1)..<length (name_entries name)] = None"
    by (simp add: X509_NAME_get_index_by_NID_def start split: option.splits)
  with assms(2,3) show ?thesis
    by (simp add: find_None_iff)
qed

lemma find_Some_first: "find P xs = Some x \<Longrightarrow> \<exists>ys zs. xs = ys @ x # zs \<and> (\<forall>y\<in>set ys. \<not> P y)"
proof (induction xs)
  case Nil
  then show ?case by simp
next
  case (Cons a xs)
  show ?case
  proof (cases "P a")
    case True
    with Cons.prems have "a = x" by simp
    then have "a # xs = [] @ x # xs \<and> (\<forall>y\<in>set []. \<not> P y)" by simp
    then show ?thesis by blast
  next
    case False
    with Cons obtain ys zs where "xs = ys @ x # zs" "\<forall>y\<in>set ys. \<not> P y" by auto
    with False have "a # xs = (a # ys) @ x # zs \<and> (\<forall>y\<in>set (a # ys). \<not> P y)" by simp
    then show ?thesis by blast
  qed
qed

lemma upt_split_middle:
  assumes "[a..<b] = ys @ x # zs"
  shows "set ys = {a..<x}"
proof -
  have "sorted (ys @ x # zs)" "distinct (ys @ x # zs)"
    using assms [symmetric] by simp_all
  have len: "length ys < b - a" using arg_cong [OF assms, of length] by simp
  have "x = [a..<b] ! length ys" by (simp add: assms)
  also have "\<dots> = a + length ys" using len by simp
  finally have x: "x = a + length ys" .
  have "ys = take (length ys) [a..<b]" by (simp add: assms)
  also have "\<dots> = [a..<a + length ys]" using len by (simp add: take_upt)
  finally have "ys = [a..<x]" by (simp add: x)
  then have "set ys = set [a..<x]" by simp
  then show ?thesis by simp
qed

lemma get_index_by_NID_between:
  assumes "0 \<le> X509_NAME_get_index_by_NID name nid lastpos"
    and "nat (lastpos + 1) \<le> j" and "j < nat (X509_NAME_get_index_by_NID name nid lastpos)"
  shows "\<not> entry_has_nid nid (name_entries name ! j)"
proof -
  have start: "(if lastpos < 0 then 0 else nat lastpos + 1) = nat (lastpos + 1)"
    by (simp add: nat_add_distrib)
  from assms(1) obtain i
    where found: "find (\<lambda>i. entry_has_nid nid (name_entries name ! i))
                    [nat (lastpos + 1)..<length (name_entries name)] = Some i"
      and res: "X509_NAME_get_index_by_NID name nid lastpos = int i"
    by (auto simp: X509_NAME_get_index_by_NID_def start split: option.splits)
  from find_Some_first [OF found] obtain ys zs
    where split: "[nat (lastpos + 1)..<length (name_entries name)] = ys @ i # zs"
      and none: "\<forall>y\<in>set ys. \<not> entry_has_nid nid (name_entries name ! y)"
    by blast
  from upt_split_middle [OF split] have "set ys = {nat (lastpos + 1)..<i}" .
  with assms(2,3) res have "j \<in> set ys" by simp
  with none show ?thesis by blast
qed

lemma cn_loop_result:
  "cn_loop subject hostname cchHostname i = Some r \<Longrightarrow>
   r = (\<exists>j. nat (i + 1) \<le> j \<and> j < length (name_entries subject)
          \<and> cn_entry_matches hostname cchHostname (name_entries subject ! j))"
proof (induction subject hostname cchHostname i rule: cn_loop.induct)
  case (1 subject hostname cchHostname i)
  define i' where "i' = X509_NAME_get_index_by_NID subject NID_commonName i"
  show ?case
  proof (cases "0 \<le> i'")
    case False
    then have none: "\<And>j. nat (i + 1) \<le> j \<Longrightarrow> j < length (name_entries subject) \<Longrightarrow>
        \<not> entry_has_nid NID_commonName (name_entries subject ! j)"
      using get_index_by_NID_none [of subject NID_commonName i] by (simp add: i'_def)
    from False "1.prems" have "r = False"
      by (subst (asm) cn_loop.simps) (simp add: i'_def Let_def)
    with none show ?thesis
      by (auto simp: cn_entry_matches_def)
  next
    case True
    note range = get_index_by_NID_range [of subject NID_commonName i, folded i'_def, OF True]
    note between = get_index_by_NID_between [of subject NID_commonName i, folded i'_def, OF True]
    have entry: "X509_NAME_get_entry subject (nat i') = Some (name_entries subject ! nat i')"
      using range(2) by (simp add: X509_NAME_get_entry_def)
    have next_i: "nat (i' + 1) = Suc (nat i')"
      using True by simp
    have rest: "(\<exists>j. nat (i + 1) \<le> j \<and> j < length (name_entries subject)
          \<and> cn_entry_matches hostname cchHostname (name_entries subject ! j))
      \<longleftrightarrow> cn_entry_matches hostname cchHostname (name_entries subject ! nat i')
          \<or> (\<exists>j. nat (i' + 1) \<le> j \<and> j < length (name_entries subject)
          \<and> cn_entry_matches hostname cchHostname (name_entries subject ! j))"
      (is "?L \<longleftrightarrow> ?M \<or> ?R")
    proof
      assume ?L
      then obtain j where j: "nat (i + 1) \<le> j" "j < length (name_entries subject)"
        "cn_entry_matches hostname cchHostname (name_entries subject ! j)" by blast
      then have "\<not> j < nat i'"
        using between [of j] by (auto simp: cn_entry_matches_def)
      then have "j = nat i' \<or> nat (i' + 1) \<le> j"
        using next_i by linarith
      with j show "?M \<or> ?R" by blast
    next
      assume "?M \<or> ?R"
      then show ?L
      proof
        assume ?M
        with range(1,2) show ?L by blast
      next
        assume ?R
        then obtain j where j: "nat (i' + 1) \<le> j" "j < length (name_entries subject)"
          "cn_entry_matches hostname cchHostname (name_entries subject ! j)" by blast
        with range(1) next_i have "nat (i + 1) \<le> j" by linarith
        with j show ?L by blast
      qed
    qed
    from "1.prems" True obtain cn
      where cn: "entry_data (name_entries subject ! nat i') = Some cn"
      by (subst (asm) cn_loop.simps)
        (auto simp: i'_def [symmetric] Let_def entry X509_NAME_ENTRY_get_data_def
          split: option.splits)
    show ?thesis
    proof (cases "cn_entry_matches hostname cchHostname (name_entries subject ! nat i')")
      case matches: True
      with "1.prems" True cn have "r = True"
        by (subst (asm) cn_loop.simps)
          (auto simp: i'_def [symmetric] Let_def entry X509_NAME_ENTRY_get_data_def
            cn_entry_matches_def split: option.splits if_splits)
      with matches rest show ?thesis by blast
    next
      case no_match: False
      show ?thesis
      proof (cases "asn1_length cn = cchHostname")
        case len: True
        with no_match cn range(3) obtain v where
          v: "strncasecmp (buffer_of (asn1_data cn)) (buffer_of hostname) (nat cchHostname) = Some v"
            "v \<noteq> 0"
          using "1.prems" True
          by (subst (asm) cn_loop.simps)
            (auto simp: i'_def [symmetric] Let_def entry X509_NAME_ENTRY_get_data_def
              cn_entry_matches_def split: option.splits if_splits)
        with "1.prems" True cn len have "cn_loop subject hostname cchHostname i' = Some r"
          by (subst (asm) cn_loop.simps)
            (simp add: i'_def [symmetric] Let_def entry X509_NAME_ENTRY_get_data_def)
        from "1.IH"(1) [OF i'_def True _ len v(1) v(2) this] cn entry
        have "r = (\<exists>j. nat (i' + 1) \<le> j \<and> j < length (name_entries subject)
          \<and> cn_entry_matches hostname cchHostname (name_entries subject ! j))"
          by (simp add: X509_NAME_ENTRY_get_data_def)
        with no_match rest show ?thesis by blast
      next
        case len: False
        with "1.prems" True cn have "cn_loop subject hostname cchHostname i' = Some r"
          by (subst (asm) cn_loop.simps)
            (simp add: i'_def [symmetric] Let_def entry X509_NAME_ENTRY_get_data_def)
        from "1.IH"(2) [OF i'_def True _ len this] cn entry
        have "r = (\<exists>j. nat (i' + 1) \<le> j \<and> j < length (name_entries subject)
          \<and> cn_entry_matches hostname cchHostname (name_entries subject ! j))"
          by (simp add: X509_NAME_ENTRY_get_data_def)
        with no_match rest show ?thesis by blast
      qed
    qed
  qed
qed



lemma strncasecmp_0:
  "length a = n \<Longrightarrow> length b = n \<Longrightarrow> NUL \<notin> set a \<Longrightarrow>
   strncasecmp a b n = Some 0 \<longleftrightarrow> map tolower a = map tolower b"
proof (induction a b arbitrary: n rule: list_induct2')
  case 1
  then show ?case by simp
next
  case (2 x xs)
  then show ?case by simp
next
  case (3 y ys)
  then show ?case by simp
next
  case (4 x xs y ys)
  from "4.prems" obtain m where n: "n = Suc m" "length xs = m" "length ys = m"
    by (cases n) auto
  with 4 show ?case by auto
qed

lemma ip_entry_matches_iff:
  "ip_entry_matches addressBytes addressBytesLen e \<longleftrightarrow>
     (\<exists>ip d. e = iPAddress (Some ip) \<and> asn1_data ip = Some d \<and> asn1_length ip = addressBytesLen
        \<and> nat addressBytesLen \<le> length addressBytes \<and> nat addressBytesLen \<le> length d
        \<and> take (nat addressBytesLen) addressBytes = take (nat addressBytesLen) d)"
  by (cases e) (auto simp: ip_entry_matches_def memcmp_0 split: option.splits)

lemma cn_entry_matches_text:
  assumes "entry_has_nid NID_commonName en" and "entry_data en = Some cn"
    and "asn1_data cn = Some d" and "hostname = Some h"
    and "length d = nat cchHostname" and "length h = nat cchHostname" and "NUL \<notin> set d"
  shows "cn_entry_matches hostname cchHostname en \<longleftrightarrow>
     asn1_length cn = cchHostname \<and> map tolower d = map tolower h"
  using assms strncasecmp_0 [of d "nat cchHostname" h]
  by (simp add: cn_entry_matches_def buffer_of_def)

lemma ex_nth_list_ex: "(\<exists>j. j < length xs \<and> P (xs ! j)) \<longleftrightarrow> list_ex P xs"
proof
  assume "\<exists>j. j < length xs \<and> P (xs ! j)"
  then obtain j where "j < length xs" "P (xs ! j)" by blast
  then have "xs ! j \<in> set xs" "P (xs ! j)" by simp_all
  then show "list_ex P xs" unfolding list_ex_iff by blast
next
  assume "list_ex P xs"
  then obtain x where "x \<in> set xs" "P x" unfolding list_ex_iff by blast
  then obtain j where "j < length xs" "xs ! j = x" unfolding in_set_conv_nth by blast
  with \<open>P x\<close> show "\<exists>j. j < length xs \<and> P (xs ! j)" by blast
qed

lemma CheckX509IpAddress_result:
  assumes "CryptoNative_CheckX509IpAddress (Some x) (Some addressBytes) addressBytesLen
             hostname cchHostname = (calls, Some r)"
    and "0 \<le> cchHostname" and "0 \<le> addressBytesLen" and "0 < cchHostname \<longrightarrow> hostname \<noteq> None"
  shows "r = (if san_ip_matches x addressBytes addressBytesLen
                \<or> subject_cn_matches x hostname cchHostname then 1 else 0)"
proof -
  define san_part where "san_part =
     (case X509_get_ext_d2i x NID_subject_alt_name of
        None \<Rightarrow> ([], Some False)
      | Some san \<Rightarrow>
          (case ip_san_loop addressBytes addressBytesLen (names_forwards san) of
             None \<Rightarrow> ([Decoded san], None)
           | Some success \<Rightarrow> ([Decoded san, GENERAL_NAMES_free san], Some success)))"
  have run: "(case san_part of
        (calls, None) \<Rightarrow> (calls, None)
      | (calls, Some True) \<Rightarrow> (calls, Some 1)
      | (calls, Some False) \<Rightarrow>
          (case X509_get_subject_name x of
             None \<Rightarrow> (calls, Some 0)
           | Some subject \<Rightarrow>
               (case cn_loop subject hostname cchHostname (- 1) of
                  None \<Rightarrow> (calls, None)
                | Some success \<Rightarrow> (calls, Some (if success then 1 else 0))))) = (calls, Some r)"
  proof -
    have "\<not> (0 < cchHostname \<and> hostname = None)" "\<not> cchHostname < 0" "\<not> addressBytesLen < 0"
      using assms(2-4) by auto
    with assms(1) show ?thesis
      by (simp add: CryptoNative_CheckX509IpAddress_def san_part_def)
  qed
  then obtain c success where sp: "san_part = (c, Some success)"
    by (cases san_part; cases "snd san_part") auto
  have san: "success = san_ip_matches x addressBytes addressBytesLen"
  proof (cases "subject_alt_name x")
    case None
    with sp show ?thesis
      by (simp add: san_part_def X509_get_ext_d2i_def san_ip_matches_def)
  next
    case (Some san)
    with sp have "ip_san_loop addressBytes addressBytesLen (map Some san) = Some success"
      by (simp add: san_part_def X509_get_ext_d2i_def names_forwards_eq split: option.splits)
    from ip_san_loop_result [OF this] Some show ?thesis
      by (simp add: san_ip_matches_def)
  qed
  show ?thesis
  proof (cases success)
    case True
    with run sp san show ?thesis by simp
  next
    case False
    show ?thesis
    proof (cases "subject_name x")
      case None
      with run sp san False show ?thesis
        by (simp add: X509_get_subject_name_def subject_cn_matches_def)
    next
      case (Some subject)
      with run sp False obtain ok where
        ok: "cn_loop subject hostname cchHostname (- 1) = Some ok" "r = (if ok then 1 else 0)"
        by (auto simp: X509_get_subject_name_def split: option.splits)
      have "(\<exists>j. j < length (name_entries subject)
              \<and> cn_entry_matches hostname cchHostname (name_entries subject ! j))
          \<longleftrightarrow> list_ex (cn_entry_matches hostname cchHostname) (name_entries subject)"
        by (rule ex_nth_list_ex)
      with cn_loop_result [OF ok(1)]
      have "ok = subject_cn_matches x hostname cchHostname"
        by (simp add: subject_cn_matches_def Some)
      with ok(2) san False show ?thesis by simp
    qed
  qed
qed


lemma strncasecmp_defined:
  "n \<le> length a \<Longrightarrow> n \<le> length b \<Longrightarrow> strncasecmp a b n \<noteq> None"
  by (induction a b n rule: strncasecmp.induct) auto

lemma ip_san_loop_defined:
  assumes "nat addressBytesLen \<le> length addressBytes"
    and "\<And>ip. iPAddress (Some ip) \<in> set es \<Longrightarrow> string_holds_length ip"
  shows "ip_san_loop addressBytes addressBytesLen (map Some es) \<noteq> None"
  using assms(2)
proof (induction es)
  case Nil
  then show ?case by simp
next
  case (Cons e es)
  then have ih: "ip_san_loop addressBytes addressBytesLen (map Some es) \<noteq> None"
    by simp
  show ?case
  proof (cases e)
    case (iPAddress p)
    show ?thesis
    proof (cases p)
      case None
      with iPAddress ih show ?thesis by simp
    next
      case (Some ip)
      with iPAddress Cons.prems have "string_holds_length ip" by simp
      with Some iPAddress ih assms(1) show ?thesis
        by (auto simp: string_holds_length_def buffer_of_def memcmp_def split: option.splits)
    qed
  qed (use ih in \<open>simp_all add: gen_defs\<close>)
qed

lemma cn_loop_defined:
  assumes "\<And>en. en \<in> set (name_entries subject) \<Longrightarrow> entry_has_nid NID_commonName en \<Longrightarrow>
             \<exists>cn. entry_data en = Some cn \<and> string_holds_length cn"
    and "nat cchHostname \<le> length (buffer_of hostname)"
  shows "cn_loop subject hostname cchHostname i \<noteq> None"
  using assms
proof (induction subject hostname cchHostname i rule: cn_loop.induct)
  case (1 subject hostname cchHostname i)
  define i' where "i' = X509_NAME_get_index_by_NID subject NID_commonName i"
  show ?case
  proof (cases "0 \<le> i'")
    case False
    then show ?thesis
      by (subst cn_loop.simps) (simp add: i'_def Let_def)
  next
    case True
    note range = get_index_by_NID_range [of subject NID_commonName i, folded i'_def, OF True]
    have entry: "X509_NAME_get_entry subject (nat i') = Some (name_entries subject ! nat i')"
      using range(2) by (simp add: X509_NAME_get_entry_def)
    from range(2,3) "1.prems"(1) [of "name_entries subject ! nat i'"]
    obtain cn where cn: "entry_data (name_entries subject ! nat i') = Some cn"
      "string_holds_length cn"
      by auto
    have get: "X509_NAME_ENTRY_get_data (X509_NAME_get_entry subject (nat i')) = Some cn"
      by (simp add: entry X509_NAME_ENTRY_get_data_def cn)
    show ?thesis
    proof (cases "asn1_length cn = cchHostname")
      case len: True
      with cn(2) "1.prems"(2)
      obtain v where v: "strncasecmp (buffer_of (asn1_data cn)) (buffer_of hostname)
          (nat cchHostname) = Some v"
        using strncasecmp_defined [of "nat cchHostname" "buffer_of (asn1_data cn)" "buffer_of hostname"]
        by (auto simp: string_holds_length_def)
      show ?thesis
      proof (cases "v = 0")
        case True
        with \<open>0 \<le> i'\<close> get len v show ?thesis
          by (subst cn_loop.simps) (simp add: i'_def [symmetric] Let_def)
      next
        case False
        from "1.IH"(1) [OF i'_def \<open>0 \<le> i'\<close> get len v False "1.prems"]
        have "cn_loop subject hostname cchHostname i' \<noteq> None" by simp
        with \<open>0 \<le> i'\<close> get len v False show ?thesis
          by (subst cn_loop.simps) (simp add: i'_def [symmetric] Let_def)
      qed
    next
      case len: False
      from "1.IH"(2) [OF i'_def \<open>0 \<le> i'\<close> get len "1.prems"]
      have "cn_loop subject hostname cchHostname i' \<noteq> None" by simp
      with \<open>0 \<le> i'\<close> get len show ?thesis
        by (subst cn_loop.simps) (simp add: i'_def [symmetric] Let_def)
    qed
  qed
qed

lemma CheckX509IpAddress_returns:
  assumes "nat addressBytesLen \<le> length addressBytes"
    and "nat cchHostname \<le> length (buffer_of hostname)"
    and "\<And>san ip. subject_alt_name x = Some san \<Longrightarrow> iPAddress (Some ip) \<in> set san \<Longrightarrow>
           string_holds_length ip"
    and "\<And>subject en. subject_name x = Some subject \<Longrightarrow> en \<in> set (name_entries subject) \<Longrightarrow>
           entry_has_nid NID_commonName en \<Longrightarrow>
           \<exists>cn. entry_data en = Some cn \<and> string_holds_length cn"
  shows "snd (CryptoNative_CheckX509IpAddress (Some x) (Some addressBytes) addressBytesLen
           hostname cchHostname) \<noteq> None"
proof -
  have san: "ip_san_loop addressBytes addressBytesLen (names_forwards san) \<noteq> None"
    if "subject_alt_name x = Some san" for san
    unfolding names_forwards_eq
    using assms(1) assms(3) [OF that] by (rule ip_san_loop_defined)
  have cn: "cn_loop subject hostname cchHostname (- 1) \<noteq> None"
    if "subject_name x = Some subject" for subject
    using assms(4) [OF that] assms(2) by (rule cn_loop_defined)
  show ?thesis
    using san cn
    by (auto simp: CryptoNative_CheckX509IpAddress_def X509_get_ext_d2i_def
        X509_get_subject_name_def split: option.splits bool.splits)
qed


text \<open>
  Claim C3. When \<open>CryptoNative_CheckX509IpAddress\<close> returns on valid arguments, it
  returns 1 exactly when some IP entry of the Subject Alternative Name matches the
  address bytes or some Common-Name entry of the Subject, at any position, matches the
  hostname, and 0 otherwise. An alternative-name entry matches only if it is an IP
  entry whose length equals \<open>addressBytesLen\<close> and whose bytes are all identical to
  the address bytes; so a 16-byte entry never matches a 4-byte query. A Subject entry
  matches only if it is a Common Name whose length equals \<open>cchHostname\<close>; for texts
  without NUL, it matches exactly when the two texts of that length are equal up to
  case.
\<close>

theorem ip_address_matching:
  assumes "CryptoNative_CheckX509IpAddress (Some x) (Some addressBytes) addressBytesLen
             hostname cchHostname = (calls, Some r)"
    and "0 \<le> cchHostname" and "0 \<le> addressBytesLen" and "0 < cchHostname \<longrightarrow> hostname \<noteq> None"
  shows
    "r = (if san_ip_matches x addressBytes addressBytesLen
            \<or> subject_cn_matches x hostname cchHostname then 1 else 0)
     \<and> (ip_entry_matches addressBytes addressBytesLen e \<longleftrightarrow>
          (\<exists>ip d. e = iPAddress (Some ip) \<and> asn1_data ip = Some d
             \<and> asn1_length ip = addressBytesLen
             \<and> nat addressBytesLen \<le> length addressBytes \<and> nat addressBytesLen \<le> length d
             \<and> take (nat addressBytesLen) addressBytes = take (nat addressBytesLen) d))
     \<and> (asn1_length ip6 = 16 \<and> addressBytesLen = 4 \<longrightarrow>
          \<not> ip_entry_matches addressBytes addressBytesLen (iPAddress (Some ip6)))
     \<and> (cn_entry_matches hostname cchHostname en \<longrightarrow>
          entry_has_nid NID_commonName en
          \<and> (\<exists>cn. entry_data en = Some cn \<and> asn1_length cn = cchHostname))
     \<and> (entry_has_nid NID_commonName en \<and> entry_data en = Some cn \<and> asn1_data cn = Some d
          \<and> hostname = Some h \<and> length d = nat cchHostname \<and> length h = nat cchHostname
          \<and> NUL \<notin> set d \<longrightarrow>
          (cn_entry_matches hostname cchHostname en \<longleftrightarrow>
             asn1_length cn = cchHostname \<and> map tolower d = map tolower h))"
proof -
  have six: "\<not> ip_entry_matches addressBytes addressBytesLen (iPAddress (Some ip6))"
    if "asn1_length ip6 = 16" "addressBytesLen = 4"
    using that by (simp add: ip_entry_matches_iff)
  have len: "entry_has_nid NID_commonName en
      \<and> (\<exists>cn. entry_data en = Some cn \<and> asn1_length cn = cchHostname)"
    if "cn_entry_matches hostname cchHostname en"
    using that by (auto simp: cn_entry_matches_def split: option.splits)
  show ?thesis
    using CheckX509IpAddress_result [OF assms] six len
      ip_entry_matches_iff [of addressBytes addressBytesLen e]
      cn_entry_matches_text [of en cn d hostname h cchHostname]
    by blast
qed

theorem ip_address_matching_witness:
  "CryptoNative_CheckX509IpAddress (Some cert_ipv6_san) (Some ipv4_loopback) 4
       (Some ''127.0.0.1'') 9
     = ([Decoded [dNSName (Some (text_string ''host.example'')),
                  iPAddress (Some (bytes_string ipv6_mapped_loopback))],
         GENERAL_NAMES_free [dNSName (Some (text_string ''host.example'')),
                  iPAddress (Some (bytes_string ipv6_mapped_loopback))]], Some 0)
   \<and> \<not> san_ip_matches cert_ipv6_san ipv4_loopback 4
   \<and> \<not> subject_cn_matches cert_ipv6_san (Some ''127.0.0.1'') 9
   \<and> CryptoNative_CheckX509IpAddress (Some cert_ipv6_san) (Some ipv6_mapped_loopback) 16
       (Some ''::ffff:127.0.0.1'') 16
     = ([Decoded [dNSName (Some (text_string ''host.example'')),
                  iPAddress (Some (bytes_string ipv6_mapped_loopback))],
         GENERAL_NAMES_free [dNSName (Some (text_string ''host.example'')),
                  iPAddress (Some (bytes_string ipv6_mapped_loopback))]], Some 1)
   \<and> san_ip_matches cert_ipv6_san ipv6_mapped_loopback 16
   \<and> snd (CryptoNative_CheckX509IpAddress (Some cert_ipv6_san) (Some ipv4_loopback) 4
       (Some ''host.example'') 12) = Some 1
   \<and> subject_cn_matches cert_ipv6_san (Some ''host.example'') 12"
proof -
  let ?san = "[dNSName (Some (text_string ''host.example'')),
                  iPAddress (Some (bytes_string ipv6_mapped_loopback))]"
  have run1: "CryptoNative_CheckX509IpAddress (Some cert_ipv6_san) (Some ipv4_loopback) 4
       (Some ''127.0.0.1'') 9 = ([Decoded ?san, GENERAL_NAMES_free ?san], Some 0)"
    by code_simp
  have run2: "CryptoNative_CheckX509IpAddress (Some cert_ipv6_san) (Some ipv6_mapped_loopback) 16
       (Some ''::ffff:127.0.0.1'') 16 = ([Decoded ?san, GENERAL_NAMES_free ?san], Some 1)"
    by code_simp
  have run3: "CryptoNative_CheckX509IpAddress (Some cert_ipv6_san) (Some ipv4_loopback) 4
       (Some ''host.example'') 12 = ([Decoded ?san, GENERAL_NAMES_free ?san], Some 1)"
    by code_simp
  have no_san: "\<not> san_ip_matches cert_ipv6_san ipv4_loopback 4"
    by code_simp
  have a: "(0::int) = (if san_ip_matches cert_ipv6_san ipv4_loopback 4
            \<or> subject_cn_matches cert_ipv6_san (Some ''127.0.0.1'') 9 then 1 else 0)"
    using ip_address_matching [OF run1] by simp
  have b: "(1::int) = (if san_ip_matches cert_ipv6_san ipv6_mapped_loopback 16
            \<or> subject_cn_matches cert_ipv6_san (Some ''::ffff:127.0.0.1'') 16 then 1 else 0)"
    using ip_address_matching [OF run2] by simp
  have c: "(1::int) = (if san_ip_matches cert_ipv6_san ipv4_loopback 4
            \<or> subject_cn_matches cert_ipv6_san (Some ''host.example'') 12 then 1 else 0)"
    using ip_address_matching [OF run3] by simp
  have no_cn: "\<not> subject_cn_matches cert_ipv6_san (Some ''::ffff:127.0.0.1'') 16"
    by code_simp
  from a have "\<not> san_ip_matches cert_ipv6_san ipv4_loopback 4"
    "\<not> subject_cn_matches cert_ipv6_san (Some ''127.0.0.1'') 9"
    by (simp_all split: if_splits)
  moreover from b no_cn have "san_ip_matches cert_ipv6_san ipv6_mapped_loopback 16"
    by (simp split: if_splits)
  moreover from c no_san have "subject_cn_matches cert_ipv6_san (Some ''host.example'') 12"
    by (simp split: if_splits)
  ultimately show ?thesis
    using run1 run2 run3 by simp
qed

text \<open>The function returns whenever every buffer is as long as its stated length.\<close>

lemma CheckX509IpAddress_example_returns:
  "snd (CryptoNative_CheckX509IpAddress (Some cert_ipv6_san) (Some ipv4_loopback) 4
       (Some ''host.example'') 12) \<noteq> None"
proof (rule CheckX509IpAddress_returns)
  show "nat 4 \<le> length ipv4_loopback" by (simp add: ipv4_loopback_def)
  show "nat 12 \<le> length (buffer_of (Some ''host.example''))" by (simp add: buffer_of_def)
  show "string_holds_length ip"
    if "subject_alt_name cert_ipv6_san = Some san" "iPAddress (Some ip) \<in> set san" for san ip
    using that
    by (auto simp: cert_ipv6_san_def string_holds_length_def bytes_string_def buffer_of_def)
  show "\<exists>cn. entry_data en = Some cn \<and> string_holds_length cn"
    if "subject_name cert_ipv6_san = Some subject" "en \<in> set (name_entries subject)" for subject en
    using that
    by (auto simp: cert_ipv6_san_def attribute_def text_string_def string_holds_length_def
        buffer_of_def)
qed

section \<open>Release of the decoded alternative-name lists\<close>

lemma alt_name_loop_calls:
  "alt_name_loop altNames nameType expectedType es = (calls, r) \<Longrightarrow>
   calls = (case r of Some (Some b) \<Rightarrow> [GENERAL_NAMES_free altNames] | _ \<Rightarrow> [])"
  by (induction es) (auto split: option.splits if_splits pointer.splits)

lemma alt_name_phase_calls:
  assumes "snd (alt_name_phase x nameType forIssuer) \<noteq> None"
  shows "fst (alt_name_phase x nameType forIssuer) = []
     \<or> (\<exists>l. X509_get_ext_d2i x (if forIssuer \<noteq> 0 then NID_issuer_alt_name else NID_subject_alt_name) = Some l
         \<and> fst (alt_name_phase x nameType forIssuer) = [Decoded l, GENERAL_NAMES_free l])"
proof (cases "X509_get_ext_d2i x (if forIssuer \<noteq> 0 then NID_issuer_alt_name else NID_subject_alt_name)")
  case None
  then show ?thesis by (simp add: alt_name_phase_def)
next
  case (Some l)
  obtain calls r where loop:
    "alt_name_loop l nameType (expected_type nameType) (names_forwards l) = (calls, r)"
    by (cases "alt_name_loop l nameType (expected_type nameType) (names_forwards l)")
  from alt_name_loop_calls [OF loop] loop Some assms show ?thesis
    by (auto simp: alt_name_phase_def split: option.splits if_splits)
qed

lemma alt_name_phase_decoded:
  assumes "NAME_TYPE_SIMPLE \<le> nameType" "nameType \<le> NAME_TYPE_URL"
    and "X509_get_ext_d2i x (if forIssuer \<noteq> 0 then NID_issuer_alt_name else NID_subject_alt_name) = Some l"
  shows "fst (alt_name_phase x nameType forIssuer) =
     (if snd (alt_name_phase x nameType forIssuer) = None then [Decoded l]
      else [Decoded l, GENERAL_NAMES_free l])"
proof -
  from assms(1,2) have nt: "nameType = NAME_TYPE_SIMPLE \<or> nameType = NAME_TYPE_DNS \<or> nameType = NAME_TYPE_DNSALT
         \<or> nameType = NAME_TYPE_EMAIL \<or> nameType = NAME_TYPE_UPN \<or> nameType = NAME_TYPE_URL"
    by (auto simp: name_type_defs)
  obtain calls r where loop:
    "alt_name_loop l nameType (expected_type nameType) (names_forwards l) = (calls, r)"
    by (cases "alt_name_loop l nameType (expected_type nameType) (names_forwards l)")
  from alt_name_loop_calls [OF loop] loop assms(3) nt show ?thesis
    by (auto simp: alt_name_phase_def split: option.splits)
qed

lemma GetX509NameInfo_calls:
  "fst (CryptoNative_GetX509NameInfo x509 nameType forIssuer) =
     (case x509 of
        None \<Rightarrow> []
      | Some x \<Rightarrow>
          if nameType < NAME_TYPE_SIMPLE \<or> nameType > NAME_TYPE_URL then []
          else if simple_phase x nameType forIssuer \<noteq> None then []
          else fst (alt_name_phase x nameType forIssuer))"
  by (auto simp: CryptoNative_GetX509NameInfo_def split: option.splits prod.splits)

lemma GetX509NameInfo_undefined:
  "snd (CryptoNative_GetX509NameInfo x509 nameType forIssuer) = None \<longleftrightarrow>
     (\<exists>x. x509 = Some x \<and> NAME_TYPE_SIMPLE \<le> nameType \<and> nameType \<le> NAME_TYPE_URL
        \<and> simple_phase x nameType forIssuer = None
        \<and> snd (alt_name_phase x nameType forIssuer) = None)"
  by (auto simp: CryptoNative_GetX509NameInfo_def split: option.splits prod.splits)

lemma GetX509NameInfo_released:
  assumes "snd (CryptoNative_GetX509NameInfo x509 nameType forIssuer) \<noteq> None"
  shows "released_exactly_once (fst (CryptoNative_GetX509NameInfo x509 nameType forIssuer))"
proof (cases x509)
  case None
  then show ?thesis by (simp add: GetX509NameInfo_calls)
next
  case (Some x)
  show ?thesis
  proof (cases "NAME_TYPE_SIMPLE \<le> nameType \<and> nameType \<le> NAME_TYPE_URL
      \<and> simple_phase x nameType forIssuer = None")
    case True
    with assms Some have "snd (alt_name_phase x nameType forIssuer) \<noteq> None"
      using GetX509NameInfo_undefined [of x509 nameType forIssuer] by auto
    from alt_name_phase_calls [OF this] True Some show ?thesis
      by (auto simp: GetX509NameInfo_calls)
  next
    case False
    with Some show ?thesis by (auto simp: GetX509NameInfo_calls)
  qed
qed

lemma alt_name_str_not_wild:
  "othername_reads_as_string altName \<Longrightarrow> alt_name_str nameType altName \<noteq> Wild"
  by (auto simp: othername_reads_as_string_def alt_name_str_def pointer_of_def
      split: option.splits)

lemma alt_name_loop_returns:
  "list_all othername_reads_as_string es \<Longrightarrow>
   snd (alt_name_loop altNames nameType expectedType (map Some es)) \<noteq> None"
proof (induction es)
  case Nil
  then show ?case by simp
next
  case (Cons e es)
  then have "alt_name_str nameType e \<noteq> Wild" by (simp add: alt_name_str_not_wild)
  with Cons show ?case by (cases "alt_name_str nameType e") simp_all
qed

lemma alt_name_phase_returns:
  assumes "alt_names_read_as_strings x forIssuer"
  shows "snd (alt_name_phase x nameType forIssuer) \<noteq> None"
proof (cases "X509_get_ext_d2i x (if forIssuer \<noteq> 0 then NID_issuer_alt_name else NID_subject_alt_name)")
  case None
  then show ?thesis by (simp add: alt_name_phase_def)
next
  case (Some l)
  with assms have "list_all othername_reads_as_string l"
    by (simp add: alt_names_read_as_strings_def)
  then have ret: "snd (alt_name_loop l nameType (expected_type nameType) (names_forwards l)) \<noteq> None"
    unfolding names_forwards_eq by (rule alt_name_loop_returns)
  obtain calls r where loop:
    "alt_name_loop l nameType (expected_type nameType) (names_forwards l) = (calls, r)"
    by (cases "alt_name_loop l nameType (expected_type nameType) (names_forwards l)")
  with ret obtain b where "r = Some b" by (cases r) simp_all
  with loop Some show ?thesis
    by (cases b) (simp_all add: alt_name_phase_def)
qed

lemma GetX509NameInfo_returns:
  "alt_names_read_as_strings x forIssuer \<Longrightarrow>
   snd (CryptoNative_GetX509NameInfo (Some x) nameType forIssuer) \<noteq> None"
  using alt_name_phase_returns [of x forIssuer nameType]
  by (simp add: GetX509NameInfo_undefined)

lemma CheckX509IpAddress_calls:
  assumes "snd (CryptoNative_CheckX509IpAddress x509 addressBytes addressBytesLen hostname cchHostname) \<noteq> None"
  shows "fst (CryptoNative_CheckX509IpAddress x509 addressBytes addressBytesLen hostname cchHostname) =
     (case x509 of
        None \<Rightarrow> []
      | Some x \<Rightarrow>
          if (0 < cchHostname \<and> hostname = None) \<or> cchHostname < 0 \<or> addressBytesLen < 0
             \<or> addressBytes = None then []
          else (case subject_alt_name x of None \<Rightarrow> [] | Some l \<Rightarrow> [Decoded l, GENERAL_NAMES_free l]))"
  using assms
  by (auto simp: CryptoNative_CheckX509IpAddress_def X509_get_ext_d2i_def
      split: option.splits bool.splits if_splits)

lemma ip_check_buffers_hold_returns:
  assumes "ip_check_buffers_hold x bytes addressBytesLen hostname cchHostname"
  shows "snd (CryptoNative_CheckX509IpAddress (Some x) (Some bytes) addressBytesLen
           hostname cchHostname) \<noteq> None"
proof (rule CheckX509IpAddress_returns)
  show "nat addressBytesLen \<le> length bytes"
    using assms by (simp add: ip_check_buffers_hold_def)
  show "nat cchHostname \<le> length (buffer_of hostname)"
    using assms by (simp add: ip_check_buffers_hold_def)
  show "string_holds_length ip"
    if "subject_alt_name x = Some san" "iPAddress (Some ip) \<in> set san" for san ip
    using assms that by (fastforce simp: ip_check_buffers_hold_def list_all_iff)
  show "\<exists>cn. entry_data en = Some cn \<and> string_holds_length cn"
    if "subject_name x = Some subject" "en \<in> set (name_entries subject)"
      "entry_has_nid NID_commonName en" for subject en
  proof -
    from assms that have "case entry_data en of None \<Rightarrow> False | Some cn \<Rightarrow> string_holds_length cn"
      by (auto simp: ip_check_buffers_hold_def list_all_iff)
    then show ?thesis by (cases "entry_data en") simp_all
  qed
qed

text \<open>
  Claim C5. Every run of \<open>CryptoNative_GetX509NameInfo\<close> and of
  \<open>CryptoNative_CheckX509IpAddress\<close> that returns has released each decoded
  alternative-name list exactly once, right after its use, and has released nothing
  else. Whenever such a run reaches the decoding and the extension decodes to a list
  \<open>l\<close>, its calls are exactly: decode \<open>l\<close>, release \<open>l\<close>; this covers the return on a
  match and the return without a match alike. The runs that do not return are those
  that end in undefined behaviour: \<open>CryptoNative_GetX509NameInfo\<close> returns whenever no
  other-name value of the list reads as a wild string pointer, and
  \<open>CryptoNative_CheckX509IpAddress\<close> returns whenever every buffer is as long as its
  stated length.
\<close>

theorem alternative_names_released_once:
  "(snd (CryptoNative_GetX509NameInfo x509 nameType forIssuer) \<noteq> None
      \<longrightarrow> released_exactly_once (fst (CryptoNative_GetX509NameInfo x509 nameType forIssuer)))
   \<and> (snd (CryptoNative_GetX509NameInfo (Some x) nameType forIssuer) \<noteq> None
        \<and> NAME_TYPE_SIMPLE \<le> nameType \<and> nameType \<le> NAME_TYPE_URL
        \<and> simple_phase x nameType forIssuer = None
        \<and> X509_get_ext_d2i x (if forIssuer \<noteq> 0 then NID_issuer_alt_name else NID_subject_alt_name) = Some l
      \<longrightarrow> fst (CryptoNative_GetX509NameInfo (Some x) nameType forIssuer)
            = [Decoded l, GENERAL_NAMES_free l])
   \<and> (alt_names_read_as_strings x forIssuer
      \<longrightarrow> snd (CryptoNative_GetX509NameInfo (Some x) nameType forIssuer) \<noteq> None)
   \<and> (snd (CryptoNative_CheckX509IpAddress x509 addressBytes addressBytesLen hostname cchHostname) \<noteq> None
      \<longrightarrow> released_exactly_once
            (fst (CryptoNative_CheckX509IpAddress x509 addressBytes addressBytesLen hostname cchHostname)))
   \<and> (snd (CryptoNative_CheckX509IpAddress (Some x) (Some bytes) addressBytesLen hostname cchHostname) \<noteq> None
        \<and> 0 \<le> cchHostname \<and> 0 \<le> addressBytesLen \<and> (0 < cchHostname \<longrightarrow> hostname \<noteq> None)
        \<and> subject_alt_name x = Some san
      \<longrightarrow> fst (CryptoNative_CheckX509IpAddress (Some x) (Some bytes) addressBytesLen hostname cchHostname)
            = [Decoded san, GENERAL_NAMES_free san])
   \<and> (ip_check_buffers_hold x bytes addressBytesLen hostname cchHostname
      \<longrightarrow> snd (CryptoNative_CheckX509IpAddress (Some x) (Some bytes) addressBytesLen hostname cchHostname)
            \<noteq> None)"
proof -
  have ip: "released_exactly_once
      (fst (CryptoNative_CheckX509IpAddress x509 addressBytes addressBytesLen hostname cchHostname))"
    if "snd (CryptoNative_CheckX509IpAddress x509 addressBytes addressBytesLen hostname cchHostname) \<noteq> None"
    unfolding CheckX509IpAddress_calls [OF that] by (simp split: option.splits)
  have ip_dec: "fst (CryptoNative_CheckX509IpAddress (Some x) (Some bytes) addressBytesLen hostname cchHostname)
            = [Decoded san, GENERAL_NAMES_free san]"
    if "snd (CryptoNative_CheckX509IpAddress (Some x) (Some bytes) addressBytesLen hostname cchHostname) \<noteq> None"
      and "0 \<le> cchHostname" "0 \<le> addressBytesLen" "0 < cchHostname \<longrightarrow> hostname \<noteq> None"
      and "subject_alt_name x = Some san"
    unfolding CheckX509IpAddress_calls [OF that(1)] using that(2-) by auto
  have res: "fst (CryptoNative_GetX509NameInfo (Some x) nameType forIssuer)
            = [Decoded l, GENERAL_NAMES_free l]"
    if "snd (CryptoNative_GetX509NameInfo (Some x) nameType forIssuer) \<noteq> None"
      and "NAME_TYPE_SIMPLE \<le> nameType" "nameType \<le> NAME_TYPE_URL"
      and "simple_phase x nameType forIssuer = None"
      and "X509_get_ext_d2i x (if forIssuer \<noteq> 0 then NID_issuer_alt_name else NID_subject_alt_name) = Some l"
  proof -
    from that(1-4) have "snd (alt_name_phase x nameType forIssuer) \<noteq> None"
      using GetX509NameInfo_undefined [of "Some x" nameType forIssuer] by auto
    with that alt_name_phase_decoded [OF that(2,3,5)] show ?thesis
      by (simp add: GetX509NameInfo_calls)
  qed
  show ?thesis
    using GetX509NameInfo_released [of x509 nameType forIssuer] ip ip_dec res
      GetX509NameInfo_returns [of x forIssuer nameType]
      ip_check_buffers_hold_returns [of x bytes addressBytesLen hostname cchHostname]
    by blast
qed

theorem alternative_names_released_once_witness:
  "CryptoNative_GetX509NameInfo (Some cert_example) NAME_TYPE_EMAIL 0
     = ([Decoded [rfc822Name (Some (text_string ''admin@example''))],
         GENERAL_NAMES_free [rfc822Name (Some (text_string ''admin@example''))]],
        Some (Some (ASN1_STRING_print_ex (text_string ''admin@example'') ASN1_STRFLGS_UTF8_CONVERT)))
   \<and> CryptoNative_GetX509NameInfo (Some cert_example) NAME_TYPE_URL 0
     = ([Decoded [rfc822Name (Some (text_string ''admin@example''))],
         GENERAL_NAMES_free [rfc822Name (Some (text_string ''admin@example''))]], Some None)
   \<and> CryptoNative_GetX509NameInfo (Some cert_upn) NAME_TYPE_UPN 0
     = ([Decoded [upn_othername (any_string (Some (text_string ''user@corp'')))],
         GENERAL_NAMES_free [upn_othername (any_string (Some (text_string ''user@corp'')))]],
        Some (Some (ASN1_STRING_print_ex (text_string ''user@corp'') ASN1_STRFLGS_UTF8_CONVERT)))
   \<and> CryptoNative_CheckX509IpAddress (Some cert_ipv6_san) (Some ipv6_mapped_loopback) 16
        (Some ''::ffff:127.0.0.1'') 16
     = ([Decoded [dNSName (Some (text_string ''host.example'')),
                  iPAddress (Some (bytes_string ipv6_mapped_loopback))],
         GENERAL_NAMES_free [dNSName (Some (text_string ''host.example'')),
                  iPAddress (Some (bytes_string ipv6_mapped_loopback))]], Some 1)
   \<and> CryptoNative_CheckX509IpAddress (Some cert_ipv6_san) (Some ipv4_loopback) 4
        (Some ''other.example'') 13
     = ([Decoded [dNSName (Some (text_string ''host.example'')),
                  iPAddress (Some (bytes_string ipv6_mapped_loopback))],
         GENERAL_NAMES_free [dNSName (Some (text_string ''host.example'')),
                  iPAddress (Some (bytes_string ipv6_mapped_loopback))]], Some 0)"
proof -
  let ?mail = "[rfc822Name (Some (text_string ''admin@example''))]"
  let ?upn = "[upn_othername (any_string (Some (text_string ''user@corp'')))]"
  let ?san = "[dNSName (Some (text_string ''host.example'')),
                  iPAddress (Some (bytes_string ipv6_mapped_loopback))]"
  have ok: "alt_names_read_as_strings cert_example 0" "alt_names_read_as_strings cert_upn 0"
    and s1: "simple_phase cert_example NAME_TYPE_EMAIL 0 = None"
    and s2: "simple_phase cert_example NAME_TYPE_URL 0 = None"
    and s3: "simple_phase cert_upn NAME_TYPE_UPN 0 = None"
    and d: "X509_get_ext_d2i cert_example (if (0::int) \<noteq> 0 then NID_issuer_alt_name else NID_subject_alt_name)
      = Some ?mail"
    and d3: "X509_get_ext_d2i cert_upn (if (0::int) \<noteq> 0 then NID_issuer_alt_name else NID_subject_alt_name)
      = Some ?upn"
    and b1: "ip_check_buffers_hold cert_ipv6_san ipv6_mapped_loopback 16 (Some ''::ffff:127.0.0.1'') 16"
    and b2: "ip_check_buffers_hold cert_ipv6_san ipv4_loopback 4 (Some ''other.example'') 13"
    and san: "subject_alt_name cert_ipv6_san = Some ?san"
    by code_simp+
  have r1: "snd (CryptoNative_GetX509NameInfo (Some cert_example) NAME_TYPE_EMAIL 0)
      = Some (Some (ASN1_STRING_print_ex (text_string ''admin@example'') ASN1_STRFLGS_UTF8_CONVERT))"
    and r2: "snd (CryptoNative_GetX509NameInfo (Some cert_example) NAME_TYPE_URL 0) = Some None"
    and r3: "snd (CryptoNative_GetX509NameInfo (Some cert_upn) NAME_TYPE_UPN 0)
      = Some (Some (ASN1_STRING_print_ex (text_string ''user@corp'') ASN1_STRFLGS_UTF8_CONVERT))"
    and i1: "snd (CryptoNative_CheckX509IpAddress (Some cert_ipv6_san)
        (Some ipv6_mapped_loopback) 16 (Some ''::ffff:127.0.0.1'') 16) = Some 1"
    and i2: "snd (CryptoNative_CheckX509IpAddress (Some cert_ipv6_san)
        (Some ipv4_loopback) 4 (Some ''other.example'') 13) = Some 0"
    by code_simp+
  have nt: "NAME_TYPE_SIMPLE \<le> NAME_TYPE_EMAIL" "NAME_TYPE_EMAIL \<le> NAME_TYPE_URL"
    "NAME_TYPE_SIMPLE \<le> NAME_TYPE_URL" "NAME_TYPE_SIMPLE \<le> NAME_TYPE_UPN"
    "NAME_TYPE_UPN \<le> NAME_TYPE_URL"
    by (simp_all add: name_type_defs)
  have c1: "fst (CryptoNative_GetX509NameInfo (Some cert_example) NAME_TYPE_EMAIL 0)
      = [Decoded ?mail, GENERAL_NAMES_free ?mail]"
    using alternative_names_released_once [where nameType = NAME_TYPE_EMAIL and forIssuer = 0
        and x = cert_example and l = ?mail] nt s1 d ok(1)
    by blast
  have c2: "fst (CryptoNative_GetX509NameInfo (Some cert_example) NAME_TYPE_URL 0)
      = [Decoded ?mail, GENERAL_NAMES_free ?mail]"
    using alternative_names_released_once [where nameType = NAME_TYPE_URL and forIssuer = 0
        and x = cert_example and l = ?mail] nt s2 d ok(1)
    by blast
  have c3: "fst (CryptoNative_GetX509NameInfo (Some cert_upn) NAME_TYPE_UPN 0)
      = [Decoded ?upn, GENERAL_NAMES_free ?upn]"
    using alternative_names_released_once [where nameType = NAME_TYPE_UPN and forIssuer = 0
        and x = cert_upn and l = ?upn] nt s3 d3 ok(2)
    by blast
  have c4: "fst (CryptoNative_CheckX509IpAddress (Some cert_ipv6_san)
        (Some ipv6_mapped_loopback) 16 (Some ''::ffff:127.0.0.1'') 16)
      = [Decoded ?san, GENERAL_NAMES_free ?san]"
    using alternative_names_released_once [where x = cert_ipv6_san
        and bytes = ipv6_mapped_loopback and addressBytesLen = 16
        and hostname = "Some ''::ffff:127.0.0.1''" and cchHostname = 16 and san = ?san] b1 san
    by simp
  have c5: "fst (CryptoNative_CheckX509IpAddress (Some cert_ipv6_san)
        (Some ipv4_loopback) 4 (Some ''other.example'') 13)
      = [Decoded ?san, GENERAL_NAMES_free ?san]"
    using alternative_names_released_once [where x = cert_ipv6_san
        and bytes = ipv4_loopback and addressBytesLen = 4
        and hostname = "Some ''other.example''" and cchHostname = 13 and san = ?san] b2 san
    by simp
  show ?thesis
    using c1 c2 c3 c4 c5 r1 r2 r3 i1 i2 by (simp add: prod_eq_iff)
qed

text \<open>
  A run that does not return: the only alternative name is an other-name under the
  UPN OID whose value is the BOOLEAN TRUE. The member \<open>value.asn1_string\<close> then reads
  as the address 0xff, the test of line 652 passes, and the print of line 655 comes
  before the release of line 656: the list has been decoded and is not released. The
  same entry with a UTF8String value, or asked for in another mode, returns.
\<close>

lemma GetX509NameInfo_upn_boolean_undefined:
  "CryptoNative_GetX509NameInfo (Some cert_upn_boolean) NAME_TYPE_UPN 0
     = ([Decoded [upn_othername (any_boolean 0xff)]], None)
   \<and> \<not> alt_names_read_as_strings cert_upn_boolean 0
   \<and> CryptoNative_GetX509NameInfo (Some cert_upn_boolean) NAME_TYPE_EMAIL 0
     = ([Decoded [upn_othername (any_boolean 0xff)],
         GENERAL_NAMES_free [upn_othername (any_boolean 0xff)]], Some None)"
  by code_simp


section \<open>Properties of EnsureOpenSsl10Initialized\<close>

lemma map_filter_append: "List.map_filter f (xs @ ys) = List.map_filter f xs @ List.map_filter f ys"
  by (simp add: List.map_filter_def)

lemma destroyed_destroy_locks: "destroyed (destroy_locks k) = rev [0..<k]"
  by (induction k) (simp_all add: destroyed_def map_filter_simps)


lemma init_locks_calls:
  "init_locks f i k = (n, ok, calls) \<Longrightarrow>
   destroyed calls = [] \<and> initialized_ok calls = [i..<n] \<and> i \<le> n \<and> n \<le> i + k
   \<and> allocated calls = 0 \<and> freed calls = 0
   \<and> (ok \<longleftrightarrow> \<not> list_ex (\<lambda>j. f j \<noteq> 0) [i..<i + k]) \<and> (ok \<longrightarrow> n = i + k)"
proof (induction k arbitrary: i n ok calls)
  case 0
  then show ?case
    by (simp add: destroyed_def initialized_ok_def allocated_def freed_def map_filter_simps)
next
  case (Suc k)
  have upt: "[i..<i + Suc k] = i # [Suc i..<Suc i + k]"
    by (simp add: upt_conv_Cons)
  have ex: "list_ex (\<lambda>j. f j \<noteq> 0) [i..<i + Suc k]
      \<longleftrightarrow> f i \<noteq> 0 \<or> list_ex (\<lambda>j. f j \<noteq> 0) [Suc i..<Suc i + k]"
    unfolding upt by simp
  show ?case
  proof (cases "f i \<noteq> 0")
    case True
    with Suc.prems have "n = i" "\<not> ok" "calls = [MutexInit i (f i)]"
      by auto
    with True show ?thesis
      unfolding ex
      by (simp add: destroyed_def initialized_ok_def allocated_def freed_def map_filter_simps)
  next
    case False
    with Suc.prems obtain calls' where
      rec: "init_locks f (Suc i) k = (n, ok, calls')" and calls: "calls = MutexInit i 0 # calls'"
      by (auto split: prod.splits)
    from Suc.IH [OF rec] have "Suc i \<le> n" by simp
    then have "[i..<n] = i # [Suc i..<n]"
      by (simp add: upt_conv_Cons)
    with Suc.IH [OF rec] False calls show ?thesis
      unfolding ex
      by (simp add: destroyed_def initialized_ok_def allocated_def freed_def map_filter_simps)
  qed
qed


lemma projections_append:
  "destroyed (xs @ ys) = destroyed xs @ destroyed ys"
  "initialized_ok (xs @ ys) = initialized_ok xs @ initialized_ok ys"
  "allocated (xs @ ys) = allocated xs + allocated ys"
  "freed (xs @ ys) = freed xs + freed ys"
  by (simp_all add: destroyed_def initialized_ok_def allocated_def freed_def map_filter_append)

lemma projections_Cons:
  "destroyed (Malloc sz b # xs) = destroyed xs" "initialized_ok (Malloc sz b # xs) = initialized_ok xs"
  "allocated (Malloc sz b # xs) = (if b then Suc (allocated xs) else allocated xs)" "freed (Malloc sz b # xs) = freed xs"
  "destroyed (MutexInit i r # xs) = destroyed xs" "initialized_ok (MutexInit i r # xs) = (if r = 0 then i # initialized_ok xs else initialized_ok xs)"
  "allocated (MutexInit i r # xs) = allocated xs" "freed (MutexInit i r # xs) = freed xs"
  "destroyed (MutexDestroy i # xs) = i # destroyed xs" "initialized_ok (MutexDestroy i # xs) = initialized_ok xs"
  "allocated (MutexDestroy i # xs) = allocated xs" "freed (MutexDestroy i # xs) = freed xs"
  "destroyed (Free # xs) = destroyed xs" "initialized_ok (Free # xs) = initialized_ok xs"
  "allocated (Free # xs) = allocated xs" "freed (Free # xs) = Suc (freed xs)"
  "destroyed (SetLockingCallback # xs) = destroyed xs" "initialized_ok (SetLockingCallback # xs) = initialized_ok xs"
  "allocated (SetLockingCallback # xs) = allocated xs" "freed (SetLockingCallback # xs) = freed xs"
  "destroyed (RandPoll r # xs) = destroyed xs" "initialized_ok (RandPoll r # xs) = initialized_ok xs"
  "allocated (RandPoll r # xs) = allocated xs" "freed (RandPoll r # xs) = freed xs"
  "destroyed (AddAllAlgorithmsConf # xs) = destroyed xs" "initialized_ok (AddAllAlgorithmsConf # xs) = initialized_ok xs"
  "allocated (AddAllAlgorithmsConf # xs) = allocated xs" "freed (AddAllAlgorithmsConf # xs) = freed xs"
  "destroyed (LoadCryptoStrings # xs) = destroyed xs" "initialized_ok (LoadCryptoStrings # xs) = initialized_ok xs"
  "allocated (LoadCryptoStrings # xs) = allocated xs" "freed (LoadCryptoStrings # xs) = freed xs"
  "destroyed (GetExNewIndex c # xs) = destroyed xs" "initialized_ok (GetExNewIndex c # xs) = initialized_ok xs"
  "allocated (GetExNewIndex c # xs) = allocated xs" "freed (GetExNewIndex c # xs) = freed xs"
  by (simp_all add: destroyed_def initialized_ok_def allocated_def freed_def map_filter_simps)

lemma projections_Nil:
  "destroyed [] = []" "initialized_ok [] = []" "allocated [] = 0" "freed [] = 0"
  by (simp_all add: destroyed_def initialized_ok_def allocated_def freed_def map_filter_simps)

lemma projections_destroy_locks:
  "initialized_ok (destroy_locks k) = []" "allocated (destroy_locks k) = 0"
  "freed (destroy_locks k) = 0"
  by (induction k) (simp_all add: projections_Cons projections_Nil)

lemmas projections = projections_append projections_Cons projections_Nil
  projections_destroy_locks destroyed_destroy_locks

text \<open>
  Claim C7. A call of \<open>EnsureOpenSsl10Initialized\<close> that finds no lock array returns
  a code from 0 to 4: 1 exactly when the lock count is not positive, 2 exactly when the
  size multiplication overflows or the allocation fails, 3 exactly when some mutex
  initialization fails, 4 exactly when the random seeding fails after all that
  succeeded. Whenever the code is not 0, the lock array is NULL afterwards, the
  mutexes destroyed are exactly those whose initialization had succeeded, in reverse
  order, and the array is released exactly once if it had been allocated (as the last
  call) and not at all otherwise.
\<close>

theorem legacy_init_failure_cleanup:
  assumes "g_locks g = None" and "EnsureOpenSsl10Initialized env g = (ret, g', calls)"
  shows
    "0 \<le> ret \<and> ret \<le> 4
     \<and> (ret = 1 \<longleftrightarrow> CRYPTO_num_locks env \<le> 0)
     \<and> (ret = 2 \<longleftrightarrow> 0 < CRYPTO_num_locks env \<and> allocation_fails env)
     \<and> (ret = 3 \<longleftrightarrow> 0 < CRYPTO_num_locks env \<and> \<not> allocation_fails env \<and> mutex_init_fails env)
     \<and> (ret = 4 \<longleftrightarrow> 0 < CRYPTO_num_locks env \<and> \<not> allocation_fails env \<and> \<not> mutex_init_fails env
            \<and> RAND_poll env < 1)
     \<and> (ret \<noteq> 0 \<longrightarrow>
          g_locks g' = None
          \<and> destroyed calls = rev (initialized_ok calls)
          \<and> freed calls = allocated calls \<and> allocated calls \<le> 1
          \<and> (allocated calls = 1 \<longrightarrow> last calls = Free))
     \<and> (ret = 0 \<longrightarrow>
          g_locks g' = Some (nat (CRYPTO_num_locks env))
          \<and> initialized_ok calls = [0..<nat (CRYPTO_num_locks env)]
          \<and> destroyed calls = [] \<and> freed calls = 0)"
proof (cases "CRYPTO_num_locks env \<le> 0")
  case True
  with assms show ?thesis
    by (auto simp: EnsureOpenSsl10Initialized_def cleanup_def projections)
next
  case pos: False
  show ?thesis
  proof (cases "multiply_s (SIZE_MAX env) (sizeof_pthread_mutex_t env) (nat (CRYPTO_num_locks env))")
    case None
    with assms pos show ?thesis
      by (auto simp: EnsureOpenSsl10Initialized_def cleanup_def allocation_fails_def projections)
  next
    case (Some sz)
    show ?thesis
    proof (cases "malloc_succeeds env sz")
      case False
      with assms pos Some show ?thesis
        by (auto simp: EnsureOpenSsl10Initialized_def cleanup_def allocation_fails_def
            projections)
    next
      case True
      with Some have alloc: "\<not> allocation_fails env"
        by (simp add: allocation_fails_def)
      obtain k ok ic where loop:
        "init_locks (pthread_mutex_init env) 0 (nat (CRYPTO_num_locks env)) = (k, ok, ic)"
        by (cases "init_locks (pthread_mutex_init env) 0 (nat (CRYPTO_num_locks env))")
      note ic = init_locks_calls [OF loop]
      from ic have ok: "ok \<longleftrightarrow> \<not> mutex_init_fails env"
        by (simp add: mutex_init_fails_def)
      show ?thesis
      proof (cases ok)
        case False
        with assms pos Some True loop
        have res: "ret = 3" "g_locks g' = None"
          "calls = [Malloc sz True] @ ic @ destroy_locks k @ [Free]"
          by (auto simp: EnsureOpenSsl10Initialized_def cleanup_def Let_def)
        have "last calls = Free"
          unfolding res(3) by simp
        moreover have "destroyed calls = rev (initialized_ok calls)" "freed calls = allocated calls"
          "allocated calls = 1"
          unfolding res(3) using ic by (simp_all add: projections)
        ultimately show ?thesis
          using res pos alloc ok False by simp
      next
        case ok_true: True
        show ?thesis
        proof (cases "RAND_poll env < 1")
          case True
          with assms pos Some \<open>malloc_succeeds env sz\<close> loop ok_true
          have res: "ret = 4" "g_locks g' = None"
            "calls = [Malloc sz True] @ ic @ [SetLockingCallback] @ [RandPoll (RAND_poll env)]
               @ destroy_locks k @ [Free]"
            by (auto simp: EnsureOpenSsl10Initialized_def cleanup_def Let_def)
          have last: "last calls = Free"
            unfolding res(3) by simp
          have "destroyed calls = rev (initialized_ok calls)" "freed calls = allocated calls"
            "allocated calls = 1"
            unfolding res(3) using ic by (simp_all add: projections)
          with res last pos alloc ok ok_true True show ?thesis
            by simp
        next
          case False
          with assms pos Some \<open>malloc_succeeds env sz\<close> loop ok_true
          have res: "ret = 0" "g_locks g' = Some (nat (CRYPTO_num_locks env))"
            "calls = [Malloc sz True] @ ic @ [SetLockingCallback] @ [RandPoll (RAND_poll env)]
               @ [AddAllAlgorithmsConf] @ [LoadCryptoStrings] @ [GetExNewIndex 10]
               @ [GetExNewIndex 3]"
            by (auto simp: EnsureOpenSsl10Initialized_def cleanup_def Let_def)
          have k: "k = nat (CRYPTO_num_locks env)"
            using ic ok_true by simp
          have "initialized_ok calls = [0..<nat (CRYPTO_num_locks env)]" "destroyed calls = []"
            "freed calls = 0"
            unfolding res(3) using ic k by (simp_all add: projections)
          with res pos alloc ok ok_true False show ?thesis
            by simp
        qed
      qed
    qed
  qed
qed


theorem legacy_init_failure_cleanup_witness:
  "EnsureOpenSsl10Initialized env_third_mutex_fails globals_at_start
     = (3, globals_at_start,
        [Malloc 120 True, MutexInit 0 0, MutexInit 1 0, MutexInit 2 12,
         MutexDestroy 1, MutexDestroy 0, Free])
   \<and> mutex_init_fails env_third_mutex_fails
   \<and> destroyed [Malloc 120 True, MutexInit 0 0, MutexInit 1 0, MutexInit 2 12,
         MutexDestroy 1, MutexDestroy 0, Free]
       = rev (initialized_ok [Malloc 120 True, MutexInit 0 0, MutexInit 1 0, MutexInit 2 12,
         MutexDestroy 1, MutexDestroy 0, Free])"
proof -
  have start: "g_locks globals_at_start = None"
    by (simp add: globals_at_start_def)
  have run: "EnsureOpenSsl10Initialized env_third_mutex_fails globals_at_start
     = (3, globals_at_start,
        [Malloc 120 True, MutexInit 0 0, MutexInit 1 0, MutexInit 2 12,
         MutexDestroy 1, MutexDestroy 0, Free])"
    by (simp add: EnsureOpenSsl10Initialized_def env_third_mutex_fails_def globals_at_start_def
        multiply_s_def cleanup_def numeral_3_eq_3)
  from legacy_init_failure_cleanup [OF start run] run show ?thesis
    by simp
qed

text \<open>
  A call that finds the lock array in place does nothing. After a seeding failure
  every mutex is destroyed and the array is released, while the locking callback
  installed at line 1418 stays installed.
\<close>

lemma legacy_init_already_done:
  "g_locks g \<noteq> None \<Longrightarrow> EnsureOpenSsl10Initialized env g = (0, g, [])"
  by (simp add: EnsureOpenSsl10Initialized_def cleanup_def)

lemma legacy_init_seed_failure_example:
  "EnsureOpenSsl10Initialized (env_third_mutex_fails\<lparr>pthread_mutex_init := (\<lambda>_. 0), RAND_poll := 0\<rparr>)
     globals_at_start
     = (4, globals_at_start\<lparr>locking_callback := True\<rparr>,
        [Malloc 120 True, MutexInit 0 0, MutexInit 1 0, MutexInit 2 0, SetLockingCallback,
         RandPoll 0, MutexDestroy 2, MutexDestroy 1, MutexDestroy 0, Free])"
  by (simp add: EnsureOpenSsl10Initialized_def env_third_mutex_fails_def globals_at_start_def
      multiply_s_def cleanup_def numeral_3_eq_3)


end
